theory Spec2Isabelle
  imports Main "HOL-Library.Multiset"
begin

section \<open>Blog system: utility methods\<close>

text \<open>
  Python strings are sequences of code points; an article body is modelled as the list of
  its code points, timestamps as integers (milliseconds, the resolution of a stored date).
\<close>

type_synonym pystr = "nat list"
type_synonym time = int

text \<open>
  \<^verbatim>\<open>str.split()\<close> without arguments cuts at runs of whitespace and returns the non-empty
  pieces. The whitespace code points are those of \<^verbatim>\<open>str.isspace\<close>.
\<close>

definition py_isspace :: "nat \<Rightarrow> bool" where
  "py_isspace c \<longleftrightarrow>
     (9 \<le> c \<and> c \<le> 13) \<or> (28 \<le> c \<and> c \<le> 32) \<or> c = 133 \<or> c = 160 \<or> c = 5760 \<or>
     (8192 \<le> c \<and> c \<le> 8202) \<or> c = 8232 \<or> c = 8233 \<or> c = 8239 \<or> c = 8287 \<or> c = 12288"

fun split_from :: "pystr \<Rightarrow> pystr \<Rightarrow> pystr list" where
  "split_from cur [] = (if cur = [] then [] else [cur])"
| "split_from cur (c # cs) =
     (if py_isspace c then (if cur = [] then split_from [] cs else cur # split_from [] cs)
      else split_from (cur @ [c]) cs)"

definition py_split :: "pystr \<Rightarrow> pystr list" where
  "py_split s = split_from [] s"

text \<open>
  \<^verbatim>\<open>round(a / b)\<close> for non-negative \<open>a\<close> and positive \<open>b\<close>: the quotient rounded to the
  nearest integer, a tie going to the even neighbour. (The float quotient of a word count
  by 200 lies on the same side of every half-integer as the exact quotient for any count
  below \<open>2^45\<close>, so the integer computation below is what Python returns.)
\<close>

definition py_round_div :: "int \<Rightarrow> int \<Rightarrow> int" where
  "py_round_div a b =
     (let q = a div b; r = a mod b
      in if 2 * r < b then q
         else if b < 2 * r then q + 1
         else if even q then q else q + 1)"

text \<open>
  \<^verbatim>\<open>
  def _calculate_reading_time(self, content):
      words = len(content.split())
      reading_time = max(1, round(words / 200))
      return reading_time
  \<close>
\<close>

definition calculate_reading_time :: "pystr \<Rightarrow> int" where
  "calculate_reading_time content =
     (let words = int (length (py_split content));
          reading_time = max 1 (py_round_div words 200)
      in reading_time)"

section \<open>Blog system: articles\<close>

text \<open>
  The documents of the \<^verbatim>\<open>articles\<close> and \<^verbatim>\<open>users\<close> collections, with the keys that
  \<^verbatim>\<open>create_article\<close> and \<^verbatim>\<open>create_user\<close> write. A collection is the list of its documents
  in insertion order. The driver's \<^verbatim>\<open>ObjectId\<close> values are a type parameter, and the
  constructor \<^verbatim>\<open>ObjectId(s)\<close> on a string is a parameter \<open>oid_of\<close> of every operation that
  calls it: \<open>None\<close> stands for the \<^verbatim>\<open>InvalidId\<close> it raises.
\<close>

record 'oid article =
  a_id :: 'oid
  title :: string
  content :: pystr
  author_id :: string
  category :: string
  tags :: "string list"
  status :: string
  created_date :: time
  published_date :: "time option"
  updated_date :: time
  view_count :: int
  like_count :: int
  comment_count :: int
  likes :: "string list"
  featured :: bool
  meta_description :: pystr
  reading_time :: int

record 'oid blog_user =
  bu_id :: 'oid
  bu_username :: string
  bu_full_name :: string

record 'oid blog_db =
  blog_users :: "'oid blog_user list"
  articles :: "'oid article list"

text \<open>
  \<^verbatim>\<open>create_article\<close>: the three \<^verbatim>\<open>datetime.utcnow()\<close> calls read \<open>t1\<close>, \<open>t2\<close>, \<open>t3\<close>;
  \<open>new_id\<close> is the identifier the driver generates for the inserted document. An insert
  whose \<^verbatim>\<open>_id\<close> is already present raises, and the method returns \<^verbatim>\<open>None\<close>.
\<close>

definition article_data ::
  "'oid \<Rightarrow> time \<Rightarrow> time \<Rightarrow> time \<Rightarrow> string \<Rightarrow> pystr \<Rightarrow> string \<Rightarrow> string \<Rightarrow> string list \<Rightarrow> string
     \<Rightarrow> 'oid article" where
  "article_data new_id t1 t2 t3 ttl cnt author cat tgs st =
     \<lparr> a_id = new_id, title = ttl, content = cnt, author_id = author, category = cat,
       tags = tgs, status = st,
       created_date = t1,
       published_date = (if st = ''published'' then Some t2 else None),
       updated_date = t3,
       view_count = 0, like_count = 0, comment_count = 0, likes = [], featured = False,
       meta_description = (if length cnt > 160 then take 160 cnt @ [46, 46, 46] else cnt),
       reading_time = calculate_reading_time cnt \<rparr>"

definition create_article ::
  "'oid \<Rightarrow> time \<Rightarrow> time \<Rightarrow> time \<Rightarrow> string \<Rightarrow> pystr \<Rightarrow> string \<Rightarrow> string \<Rightarrow> string list \<Rightarrow> string
     \<Rightarrow> 'oid blog_db \<Rightarrow> 'oid option \<times> 'oid blog_db" where
  "create_article new_id t1 t2 t3 ttl cnt author cat tgs st db =
     (if new_id \<in> set (map a_id (articles db)) then (None, db)
      else (Some new_id,
            db\<lparr>articles := articles db @ [article_data new_id t1 t2 t3 ttl cnt author cat tgs st]\<rparr>))"

text \<open>
  \<^verbatim>\<open>update_one(query, update)\<close> on a collection: the first document that matches the
  query is replaced by its update. \<^verbatim>\<open>matched_count\<close> counts the document found,
  \<^verbatim>\<open>modified_count\<close> counts it only when the update has changed it.
\<close>

record update_result =
  matched_count :: nat
  modified_count :: nat

fun update_one :: "('a \<Rightarrow> bool) \<Rightarrow> ('a \<Rightarrow> 'a) \<Rightarrow> 'a list \<Rightarrow> update_result \<times> 'a list" where
  "update_one q f [] = (\<lparr>matched_count = 0, modified_count = 0\<rparr>, [])"
| "update_one q f (x # xs) =
     (if q x then (\<lparr>matched_count = 1, modified_count = (if f x = x then 0 else 1)\<rparr>, f x # xs)
      else (case update_one q f xs of (r, ys) \<Rightarrow> (r, x # ys)))"

text \<open>
  \<^verbatim>\<open>like_article\<close>: an invalid identifier raises inside the \<^verbatim>\<open>try\<close> and gives \<^verbatim>\<open>False\<close>;
  \<^verbatim>\<open>$pull\<close> removes every occurrence of the user from the array, \<^verbatim>\<open>$push\<close> appends.
\<close>

definition like_article ::
  "(string \<Rightarrow> 'oid option) \<Rightarrow> string \<Rightarrow> string \<Rightarrow> 'oid blog_db \<Rightarrow> bool \<times> 'oid blog_db" where
  "like_article oid_of article_id user_id db =
     (case oid_of article_id of
        None \<Rightarrow> (False, db)
      | Some aid \<Rightarrow>
          (case find (\<lambda>a. a_id a = aid) (articles db) of
             None \<Rightarrow> (False, db)
           | Some article \<Rightarrow>
               (if user_id \<in> set (likes article) then
                  (case update_one (\<lambda>a. a_id a = aid)
                          (\<lambda>a. a\<lparr>likes := removeAll user_id (likes a),
                                 like_count := like_count a + (- 1)\<rparr>) (articles db) of
                     (result, as) \<Rightarrow> (modified_count result > 0, db\<lparr>articles := as\<rparr>))
                else
                  (case update_one (\<lambda>a. a_id a = aid)
                          (\<lambda>a. a\<lparr>likes := likes a @ [user_id],
                                 like_count := like_count a + 1\<rparr>) (articles db) of
                     (result, as) \<Rightarrow> (modified_count result > 0, db\<lparr>articles := as\<rparr>)))))"

text \<open>
  \<^verbatim>\<open>get_popular_articles\<close>. The threshold is computed first: \<^verbatim>\<open>timedelta(days=days)\<close> raises
  \<^verbatim>\<open>OverflowError\<close> when the magnitude of \<open>days\<close> exceeds 999999999, and the subtraction
  raises it when the result leaves the range of \<^verbatim>\<open>datetime\<close> (years 1 to 9999; the bounds
  below are \<^verbatim>\<open>datetime.min\<close> and \<^verbatim>\<open>datetime.max\<close> in milliseconds since the epoch). Then the
  aggregation stages in order. \<^verbatim>\<open>$match\<close> keeps the published articles whose date is not
  before the threshold (a missing date does not match \<^verbatim>\<open>$gte\<close>); \<^verbatim>\<open>$addFields\<close> pairs each
  with its score; \<^verbatim>\<open>$sort\<close> orders by score, largest first; \<^verbatim>\<open>$limit\<close> rejects a limit
  that is not positive, and a limit beyond 64 bits cannot be encoded; \<^verbatim>\<open>$lookup\<close> converts
  the author reference with \<^verbatim>\<open>$toObjectId\<close>, which fails on a string that is no
  identifier, and \<^verbatim>\<open>$unwind\<close> emits one result per author found, none when there is no
  such user. Every one of these failures is caught and the method returns the empty list.
\<close>

definition popularity_score :: "'oid article \<Rightarrow> int" where
  "popularity_score a = view_count a * 1 + like_count a * 3 + comment_count a * 2"

definition ms_per_day :: int where
  "ms_per_day = 86400000"

definition datetime_min :: time where
  "datetime_min = - 62135596800000"

definition datetime_max :: time where
  "datetime_max = 253402300799999"

definition max_int64 :: int where
  "max_int64 = 9223372036854775807"

definition match_popular :: "time \<Rightarrow> 'oid article \<Rightarrow> bool" where
  "match_popular date_threshold a \<longleftrightarrow>
     status a = ''published'' \<and>
     (case published_date a of None \<Rightarrow> False | Some d \<Rightarrow> date_threshold \<le> d)"

definition lookup_author ::
  "(string \<Rightarrow> 'oid option) \<Rightarrow> 'oid blog_user list \<Rightarrow> 'oid article \<times> int
     \<Rightarrow> ('oid article \<times> int \<times> 'oid blog_user) list" where
  "lookup_author oid_of us p =
     (case oid_of (author_id (fst p)) of
        None \<Rightarrow> []
      | Some aid \<Rightarrow> map (\<lambda>u. (fst p, snd p, u)) (filter (\<lambda>u. bu_id u = aid) us))"

definition get_popular_articles ::
  "(string \<Rightarrow> 'oid option) \<Rightarrow> time \<Rightarrow> int \<Rightarrow> int \<Rightarrow> 'oid blog_db
     \<Rightarrow> ('oid article \<times> int \<times> 'oid blog_user) list" where
  "get_popular_articles oid_of now days limit db =
     (if 999999999 < \<bar>days\<bar> then []
      else (let date_threshold = now - days * ms_per_day
            in if date_threshold < datetime_min \<or> datetime_max < date_threshold then []
               else (let matched = filter (match_popular date_threshold) (articles db);
                         scored = map (\<lambda>a. (a, popularity_score a)) matched;
                         sorted = sort_key (\<lambda>p. - snd p) scored
                     in if limit \<le> 0 \<or> max_int64 < limit then []
                        else (let limited = take (nat limit) sorted
                              in if list_ex (\<lambda>p. oid_of (author_id (fst p)) = None) limited
                                 then []
                                 else concat (map (lookup_author oid_of (blog_users db)) limited)))))"

section \<open>Blog system: comment tree\<close>

text \<open>
  A comment as \<^verbatim>\<open>_organize_comments\<close> reads it: \<open>cid\<close> is \<^verbatim>\<open>str(comment["_id"])\<close>,
  \<open>parent_id\<close> the stored parent reference (\<^verbatim>\<open>None\<close> or a string).

  The method mutates the dictionaries it is given and returns references to them, so the
  model keeps a store: the address of a comment is its position in the input list,
  \<open>replies\<close> holds for each address the addresses appended to its \<^verbatim>\<open>"replies"\<close> list,
  \<open>comment_map\<close> sends an identifier to the address last stored under it, and
  \<open>root_comments\<close> is the returned list of addresses.
\<close>

record comment =
  cid :: string
  parent_id :: "string option"
  body :: string

record organize_state =
  comment_map :: "string \<rightharpoonup> nat"
  replies :: "nat list list"
  root_comments :: "nat list"

definition truthy :: "string option \<Rightarrow> bool" where
  "truthy p = (case p of None \<Rightarrow> False | Some s \<Rightarrow> s \<noteq> [])"

definition map_step :: "comment list \<Rightarrow> nat \<Rightarrow> organize_state \<Rightarrow> organize_state" where
  "map_step cs i st =
     st\<lparr>replies := (replies st)[i := []],
        comment_map := (comment_map st)(cid (cs ! i) \<mapsto> i)\<rparr>"

definition link_step :: "comment list \<Rightarrow> nat \<Rightarrow> organize_state \<Rightarrow> organize_state" where
  "link_step cs i st =
     (if truthy (parent_id (cs ! i)) then
        (case comment_map st (the (parent_id (cs ! i))) of
           Some j \<Rightarrow> st\<lparr>replies := (replies st)[j := replies st ! j @ [i]]\<rparr>
         | None \<Rightarrow> st)
      else st\<lparr>root_comments := root_comments st @ [i]\<rparr>)"

definition organize_comments :: "comment list \<Rightarrow> organize_state" where
  "organize_comments cs =
     (let n = length cs;
          st0 = \<lparr>comment_map = Map.empty, replies = replicate n [], root_comments = []\<rparr>;
          st1 = fold (map_step cs) [0..<n] st0
      in fold (link_step cs) [0..<n] st1)"

text \<open>
  The returned value seen as a tree: following the \<^verbatim>\<open>"replies"\<close> references from an
  address, to a bounded depth (\<open>None\<close> when the bound is reached, as on a cyclic structure).
\<close>

datatype ctree = CNode comment "ctree list"

fun subtree :: "nat \<Rightarrow> comment list \<Rightarrow> nat list list \<Rightarrow> nat \<Rightarrow> ctree option" where
  "subtree 0 cs rs i = None"
| "subtree (Suc d) cs rs i =
     (case those (map (subtree d cs rs) (rs ! i)) of
        None \<Rightarrow> None
      | Some ts \<Rightarrow> Some (CNode (cs ! i) ts))"

definition comment_forest :: "nat \<Rightarrow> comment list \<Rightarrow> ctree list option" where
  "comment_forest d cs =
     (let st = organize_comments cs
      in those (map (subtree d cs (replies st)) (root_comments st)))"

section \<open>Task manager: documents and the driver\<close>

text \<open>
  A task document is a dictionary from field names to stored values, kept in key order.
  \<^verbatim>\<open>update_task\<close> receives such a dictionary from its caller, so tasks are not given a
  fixed record type. Users are only written by \<^verbatim>\<open>create_user\<close> and the counter update,
  and are a record of the keys \<^verbatim>\<open>create_user\<close> writes.
\<close>

datatype 'oid bson =
  Null | Str string | Int int | Bool bool | Date time | Oid 'oid | Arr "'oid bson list"

type_synonym 'oid doc = "(string \<times> 'oid bson) list"

record 'oid user =
  u_id :: 'oid
  username :: string
  email :: string
  full_name :: string
  created_at :: time
  task_count :: int
  active :: bool

record 'oid task_db =
  tasks :: "'oid doc list"
  users :: "'oid user list"

datatype error = DuplicateKeyError | InvalidId | KeyError | TypeError

text \<open>
  An identifier handed to a method is a string or an \<^verbatim>\<open>ObjectId\<close> (the value that
  \<^verbatim>\<open>insert_one\<close> returned). \<^verbatim>\<open>ObjectId(x)\<close> returns an \<^verbatim>\<open>ObjectId\<close> unchanged and parses
  a string; \<^verbatim>\<open>ObjectId.is_valid(x)\<close> tells whether that constructor succeeds.
\<close>

datatype 'oid ident_arg = IStr string | IOid 'oid

fun object_id :: "(string \<Rightarrow> 'oid option) \<Rightarrow> 'oid ident_arg \<Rightarrow> 'oid option" where
  "object_id oid_of (IStr s) = oid_of s"
| "object_id oid_of (IOid i) = Some i"

definition is_valid :: "(string \<Rightarrow> 'oid option) \<Rightarrow> 'oid ident_arg \<Rightarrow> bool" where
  "is_valid oid_of x \<longleftrightarrow> object_id oid_of x \<noteq> None"

fun ident_value :: "'oid ident_arg \<Rightarrow> 'oid bson" where
  "ident_value (IStr s) = Str s"
| "ident_value (IOid i) = Oid i"

text \<open>\<^verbatim>\<open>"@" in identifier\<close>; reached only for an identifier that is not an \<^verbatim>\<open>ObjectId\<close>.\<close>

fun contains_at :: "'oid ident_arg \<Rightarrow> bool" where
  "contains_at (IStr s) = (CHR ''@'' \<in> set s)"
| "contains_at (IOid i) = False"

text \<open>
  Query operators on a task document. A condition on a field is tested against the stored
  value and, when that value is an array, against each of its elements. \<^verbatim>\<open>$lt\<close> with a
  date compares dates only, so a missing or null field does not match; \<^verbatim>\<open>$nin\<close> matches
  when no tested value is listed, hence also when the field is missing.
\<close>

fun elems :: "'oid bson \<Rightarrow> 'oid bson list" where
  "elems (Arr xs) = Arr xs # xs"
| "elems v = [v]"

definition match_eq :: "string \<Rightarrow> 'oid bson \<Rightarrow> 'oid doc \<Rightarrow> bool" where
  "match_eq k v d = (case map_of d k of None \<Rightarrow> v = Null | Some x \<Rightarrow> v \<in> set (elems x))"

fun date_before :: "time \<Rightarrow> 'oid bson \<Rightarrow> bool" where
  "date_before t (Date s) = (s < t)"
| "date_before t v = False"

definition match_lt :: "string \<Rightarrow> time \<Rightarrow> 'oid doc \<Rightarrow> bool" where
  "match_lt k t d = (case map_of d k of None \<Rightarrow> False | Some x \<Rightarrow> list_ex (date_before t) (elems x))"

definition match_nin :: "string \<Rightarrow> 'oid bson list \<Rightarrow> 'oid doc \<Rightarrow> bool" where
  "match_nin k vs d =
     (case map_of d k of None \<Rightarrow> True | Some x \<Rightarrow> \<not> list_ex (\<lambda>e. e \<in> set vs) (elems x))"

text \<open>
  \<^verbatim>\<open>d[k] = v\<close> on a dictionary, and \<^verbatim>\<open>$set\<close> with an update dictionary (each key once)
  whose keys are top-level field names other than \<^verbatim>\<open>_id\<close> (\<open>plain_update\<close>): each key is
  overwritten in place or added at the end. Dotted paths and operator keys are outside
  this model.
\<close>

fun dict_set :: "string \<Rightarrow> 'v \<Rightarrow> (string \<times> 'v) list \<Rightarrow> (string \<times> 'v) list" where
  "dict_set k v [] = [(k, v)]"
| "dict_set k v (p # ps) = (if fst p = k then (k, v) # ps else p # dict_set k v ps)"

definition set_fields :: "'oid doc \<Rightarrow> 'oid doc \<Rightarrow> 'oid doc" where
  "set_fields updates d = fold (\<lambda>p. dict_set (fst p) (snd p)) updates d"

definition plain_field :: "string \<Rightarrow> bool" where
  "plain_field k \<longleftrightarrow> k \<noteq> [] \<and> k \<noteq> ''_id'' \<and> CHR ''.'' \<notin> set k \<and> hd k \<noteq> CHR ''$''"

definition plain_update :: "'oid doc \<Rightarrow> bool" where
  "plain_update updates \<longleftrightarrow>
     distinct (map fst updates) \<and> list_all (\<lambda>p. plain_field (fst p)) updates"

text \<open>
  \<^verbatim>\<open>insert_one\<close> on the tasks collection, whose unique indexes are \<^verbatim>\<open>_id\<close> and
  \<^verbatim>\<open>task_id\<close>; \<open>new_id\<close> is the identifier the driver generates. \<^verbatim>\<open>delete_one\<close> removes the
  first document that matches.
\<close>

definition insert_one :: "'oid \<Rightarrow> string \<Rightarrow> 'oid doc \<Rightarrow> 'oid doc list \<Rightarrow> error + 'oid doc list" where
  "insert_one new_id task_id d ts =
     (if list_ex (match_eq ''_id'' (Oid new_id)) ts \<or> list_ex (match_eq ''task_id'' (Str task_id)) ts
      then Inl DuplicateKeyError
      else Inr (ts @ [(''_id'', Oid new_id) # d]))"

fun delete_one :: "('a \<Rightarrow> bool) \<Rightarrow> 'a list \<Rightarrow> nat \<times> 'a list" where
  "delete_one q [] = (0, [])"
| "delete_one q (x # xs) =
     (if q x then (1, xs) else (case delete_one q xs of (n, ys) \<Rightarrow> (n, x # ys)))"

section \<open>Task manager: operations\<close>

text \<open>
  \<^verbatim>\<open>get_user\<close>: the query is chosen by the shape of the identifier, then \<^verbatim>\<open>find_one\<close>
  returns the first user that matches.
\<close>

datatype 'oid user_query = By_id 'oid | By_email "'oid ident_arg" | By_username "'oid ident_arg"

definition get_user_query :: "(string \<Rightarrow> 'oid option) \<Rightarrow> 'oid ident_arg \<Rightarrow> 'oid user_query" where
  "get_user_query oid_of identifier =
     (if is_valid oid_of identifier then By_id (the (object_id oid_of identifier))
      else if contains_at identifier then By_email identifier
      else By_username identifier)"

fun user_matches :: "'oid user_query \<Rightarrow> 'oid user \<Rightarrow> bool" where
  "user_matches (By_id i) u = (u_id u = i)"
| "user_matches (By_email x) u = (IStr (email u) = x)"
| "user_matches (By_username x) u = (IStr (username u) = x)"

definition get_user :: "(string \<Rightarrow> 'oid option) \<Rightarrow> 'oid ident_arg \<Rightarrow> 'oid task_db \<Rightarrow> 'oid user option" where
  "get_user oid_of identifier db = find (user_matches (get_user_query oid_of identifier)) (users db)"

text \<open>\<^verbatim>\<open>f"{n:04d}"\<close>: the decimal digits of \<open>n\<close>, padded with zeros to four places.\<close>

function dec :: "nat \<Rightarrow> string" where
  "dec n = (if n < 10 then [''0123456789'' ! n] else dec (n div 10) @ [''0123456789'' ! (n mod 10)])"
  by pat_completeness auto
termination
  by (relation "measure id") auto

definition fmt04 :: "nat \<Rightarrow> string" where
  "fmt04 n = (let s = dec n in replicate (4 - length s) CHR ''0'' @ s)"

text \<open>
  \<^verbatim>\<open>create_task\<close>: \<open>t1\<close> and \<open>t2\<close> are the two clock readings. A failed insert is caught and
  gives \<^verbatim>\<open>None\<close>; so is the \<^verbatim>\<open>InvalidId\<close> of \<^verbatim>\<open>ObjectId(user_id)\<close>, raised after the task
  has been inserted. The counter update changes the first user with that identifier, and
  nothing when there is none.
\<close>

definition task_data ::
  "string \<Rightarrow> string \<Rightarrow> string \<Rightarrow> 'oid ident_arg \<Rightarrow> string \<Rightarrow> time \<Rightarrow> time \<Rightarrow> time option \<Rightarrow> 'oid doc" where
  "task_data task_id ttl description user_id priority t1 t2 due_date =
     [(''task_id'', Str task_id),
      (''title'', Str ttl),
      (''description'', Str description),
      (''user_id'', ident_value user_id),
      (''status'', Str ''todo''),
      (''priority'', Str priority),
      (''created_at'', Date t1),
      (''updated_at'', Date t2),
      (''due_date'', (case due_date of None \<Rightarrow> Null | Some d \<Rightarrow> Date d)),
      (''completed_at'', Null),
      (''tags'', Arr []),
      (''comments'', Arr [])]"

definition inc_task_count :: "'oid \<Rightarrow> int \<Rightarrow> 'oid user list \<Rightarrow> 'oid user list" where
  "inc_task_count i k us =
     snd (update_one (\<lambda>u. u_id u = i) (\<lambda>u. u\<lparr>task_count := task_count u + k\<rparr>) us)"

definition create_task ::
  "(string \<Rightarrow> 'oid option) \<Rightarrow> 'oid \<Rightarrow> time \<Rightarrow> time \<Rightarrow> string \<Rightarrow> string \<Rightarrow> 'oid ident_arg \<Rightarrow> string
     \<Rightarrow> time option \<Rightarrow> 'oid task_db \<Rightarrow> 'oid option \<times> 'oid task_db" where
  "create_task oid_of new_id t1 t2 ttl description user_id priority due_date db =
     (let task_count = length (tasks db) + 1;
          task_id = ''TASK-'' @ fmt04 task_count;
          data = task_data task_id ttl description user_id priority t1 t2 due_date
      in case insert_one new_id task_id data (tasks db) of
           Inl e \<Rightarrow> (None, db)
         | Inr ts \<Rightarrow>
             (case object_id oid_of user_id of
                None \<Rightarrow> (None, db\<lparr>tasks := ts\<rparr>)
              | Some i \<Rightarrow> (Some new_id, db\<lparr>tasks := ts, users := inc_task_count i 1 (users db)\<rparr>)))"

text \<open>
  The query that \<^verbatim>\<open>get_task\<close>, \<^verbatim>\<open>update_task\<close> and \<^verbatim>\<open>delete_task\<close> each build from the
  task identifier.
\<close>

definition task_query :: "(string \<Rightarrow> 'oid option) \<Rightarrow> 'oid ident_arg \<Rightarrow> 'oid doc \<Rightarrow> bool" where
  "task_query oid_of task_identifier =
     (if is_valid oid_of task_identifier
      then match_eq ''_id'' (Oid (the (object_id oid_of task_identifier)))
      else match_eq ''task_id'' (ident_value task_identifier))"

definition get_task :: "(string \<Rightarrow> 'oid option) \<Rightarrow> 'oid ident_arg \<Rightarrow> 'oid task_db \<Rightarrow> 'oid doc option" where
  "get_task oid_of task_identifier db = find (task_query oid_of task_identifier) (tasks db)"

text \<open>
  \<^verbatim>\<open>update_task\<close>: \<open>t1\<close> and \<open>t2\<close> are the clock readings of the two \<^verbatim>\<open>utcnow()\<close> calls.
  \<open>stamp_updates\<close> is the caller's dictionary after the method has written into it.
\<close>

definition stamp_updates :: "time \<Rightarrow> time \<Rightarrow> 'oid doc \<Rightarrow> 'oid doc" where
  "stamp_updates t1 t2 updates =
     (let updates1 = dict_set ''updated_at'' (Date t1) updates
      in if map_of updates1 ''status'' = Some (Str ''completed'')
            \<and> map_of updates1 ''completed_at'' = None
         then dict_set ''completed_at'' (Date t2) updates1
         else updates1)"

definition update_task ::
  "(string \<Rightarrow> 'oid option) \<Rightarrow> time \<Rightarrow> time \<Rightarrow> 'oid ident_arg \<Rightarrow> 'oid doc \<Rightarrow> 'oid task_db
     \<Rightarrow> bool \<times> 'oid task_db" where
  "update_task oid_of t1 t2 task_identifier updates db =
     (case update_one (task_query oid_of task_identifier)
             (set_fields (stamp_updates t1 t2 updates)) (tasks db) of
        (result, ts) \<Rightarrow>
          (if modified_count result > 0 then (True, db\<lparr>tasks := ts\<rparr>)
           else (False, db\<lparr>tasks := ts\<rparr>)))"

text \<open>
  \<^verbatim>\<open>delete_task\<close>: \<^verbatim>\<open>task["user_id"]\<close> and \<^verbatim>\<open>ObjectId(...)\<close> are evaluated after the task has
  been deleted and outside any \<^verbatim>\<open>try\<close>, so their exceptions leave the method with the task
  already removed. \<^verbatim>\<open>ObjectId(v)\<close> on a stored value parses a string, returns an
  \<^verbatim>\<open>ObjectId\<close> unchanged, and on \<^verbatim>\<open>None\<close> generates a new identifier (\<open>Inr None\<close>), which
  no stored user has: the counter update then matches nothing.
\<close>

fun stored_object_id :: "(string \<Rightarrow> 'oid option) \<Rightarrow> 'oid bson \<Rightarrow> error + 'oid option" where
  "stored_object_id oid_of (Str s) =
     (case oid_of s of None \<Rightarrow> Inl InvalidId | Some i \<Rightarrow> Inr (Some i))"
| "stored_object_id oid_of (Oid i) = Inr (Some i)"
| "stored_object_id oid_of Null = Inr None"
| "stored_object_id oid_of v = Inl TypeError"

definition delete_task ::
  "(string \<Rightarrow> 'oid option) \<Rightarrow> 'oid ident_arg \<Rightarrow> 'oid task_db \<Rightarrow> (error + bool) \<times> 'oid task_db" where
  "delete_task oid_of task_identifier db =
     (case get_task oid_of task_identifier db of
        None \<Rightarrow> (Inr False, db)
      | Some task \<Rightarrow>
          (case delete_one (task_query oid_of task_identifier) (tasks db) of
             (deleted_count, ts) \<Rightarrow>
               (if deleted_count > 0 then
                  (case map_of task ''user_id'' of
                     None \<Rightarrow> (Inl KeyError, db\<lparr>tasks := ts\<rparr>)
                   | Some v \<Rightarrow>
                       (case stored_object_id oid_of v of
                          Inl e \<Rightarrow> (Inl e, db\<lparr>tasks := ts\<rparr>)
                        | Inr None \<Rightarrow> (Inr True, db\<lparr>tasks := ts\<rparr>)
                        | Inr (Some i) \<Rightarrow>
                            (Inr True, db\<lparr>tasks := ts, users := inc_task_count i (- 1) (users db)\<rparr>)))
                else (Inr False, db\<lparr>tasks := ts\<rparr>))))"

text \<open>
  \<^verbatim>\<open>get_overdue_tasks\<close>; \<open>current_time\<close> is the clock reading. \<open>scalar_field\<close> says that
  a document holds no array under a key, as for the \<^verbatim>\<open>due_date\<close> and \<^verbatim>\<open>status\<close> that
  \<^verbatim>\<open>create_task\<close> writes.
\<close>

fun is_array :: "'oid bson \<Rightarrow> bool" where
  "is_array (Arr xs) = True"
| "is_array v = False"

definition scalar_field :: "string \<Rightarrow> 'oid doc \<Rightarrow> bool" where
  "scalar_field k d = (case map_of d k of None \<Rightarrow> True | Some v \<Rightarrow> \<not> is_array v)"

definition get_overdue_tasks :: "time \<Rightarrow> 'oid task_db \<Rightarrow> 'oid doc list" where
  "get_overdue_tasks current_time db =
     filter (\<lambda>d. match_lt ''due_date'' current_time d
                 \<and> match_nin ''status'' [Str ''completed'', Str ''cancelled''] d) (tasks db)"

text \<open>
  A caller that creates tasks for one user, one \<^verbatim>\<open>create_task\<close> call after the other, as
  \<^verbatim>\<open>main\<close> does; it collects the returned values.
\<close>

record 'oid create_call =
  call_new_id :: 'oid
  call_t1 :: time
  call_t2 :: time
  call_title :: string
  call_description :: string
  call_priority :: string
  call_due_date :: "time option"

fun create_tasks ::
  "(string \<Rightarrow> 'oid option) \<Rightarrow> 'oid ident_arg \<Rightarrow> 'oid create_call list \<Rightarrow> 'oid task_db
     \<Rightarrow> 'oid option list \<times> 'oid task_db" where
  "create_tasks oid_of user_id [] db = ([], db)"
| "create_tasks oid_of user_id (c # cs) db =
     (case create_task oid_of (call_new_id c) (call_t1 c) (call_t2 c) (call_title c)
             (call_description c) user_id (call_priority c) (call_due_date c) db of
        (r, db1) \<Rightarrow>
          (case create_tasks oid_of user_id cs db1 of (rs, db2) \<Rightarrow> (r # rs, db2)))"

section \<open>Example inputs\<close>

text \<open>Concrete values on which the properties below are evaluated.\<close>

definition three_hundred_words :: pystr where
  "three_hundred_words = concat (replicate 300 [97, 32])"

definition ex_oid :: "string \<Rightarrow> nat option" where
  "ex_oid = map_of [(''65a000000000000000000001'', 1), (''65a000000000000000000002'', 2),
                    (''65a000000000000000000003'', 3), (''65a000000000000000000004'', 4)]"

definition ex_article ::
  "nat \<Rightarrow> string \<Rightarrow> time option \<Rightarrow> int \<Rightarrow> int \<Rightarrow> int \<Rightarrow> string list \<Rightarrow> nat article" where
  "ex_article i st pd v l c ls =
     (article_data i 0 0 0 ''Title'' [72, 105] ''65a000000000000000000001'' ''tech'' [] st)
       \<lparr>published_date := pd, view_count := v, like_count := l, comment_count := c, likes := ls\<rparr>"

definition ex_liked :: "nat article" where
  "ex_liked = ex_article 2 ''published'' (Some 500) 10 2 1 [''alice'', ''bob'']"

definition ex_author :: "nat blog_user" where
  "ex_author = \<lparr>bu_id = 1, bu_username = ''ahmed_dev'', bu_full_name = ''Ahmed Mohamed''\<rparr>"

definition ex_blog :: "nat blog_db" where
  "ex_blog = \<lparr>blog_users = [ex_author],
     articles = [ex_liked,
                 ex_article 3 ''draft'' None 50 0 0 [],
                 ex_article 4 ''published'' (Some 200) 20 2 2 [''alice'', ''alice'']]\<rparr>"

definition ex_root :: comment where
  "ex_root = \<lparr>cid = ''c0a'', parent_id = None, body = ''A''\<rparr>"

definition ex_reply :: comment where
  "ex_reply = \<lparr>cid = ''c0b'', parent_id = Some ''c0a'', body = ''B''\<rparr>"

definition ex_nested :: comment where
  "ex_nested = \<lparr>cid = ''c0c'', parent_id = Some ''c0b'', body = ''C''\<rparr>"

definition ex_orphan :: comment where
  "ex_orphan = \<lparr>cid = ''c0d'', parent_id = Some ''fff'', body = ''D''\<rparr>"

definition ex_comments :: "comment list" where
  "ex_comments = [ex_root, ex_reply, ex_nested, ex_orphan]"

definition ex_user :: "nat user" where
  "ex_user = \<lparr>u_id = 1, username = ''ahmed_dev'', email = ''ahmed@example.com'',
     full_name = ''Ahmed Mohamed'', created_at = 0, task_count = 0, active = True\<rparr>"

definition ex_tasks0 :: "nat task_db" where
  "ex_tasks0 = \<lparr>tasks = [], users = [ex_user]\<rparr>"

definition ex_tasks1 :: "nat task_db" where
  "ex_tasks1 = snd (create_task ex_oid 2 10 10 ''Develop UI'' ''Create UI''
     (IStr ''65a000000000000000000001'') ''high'' (Some 50) ex_tasks0)"

definition ex_task :: "nat doc" where
  "ex_task = (''_id'', Oid 2) #
     task_data ''TASK-0001'' ''Develop UI'' ''Create UI'' (IStr ''65a000000000000000000001'')
       ''high'' 10 10 (Some 50)"

definition ex_task_due_now :: "nat doc" where
  "ex_task_due_now = (''_id'', Oid 3) #
     task_data ''TASK-0002'' ''Review requirements'' ''Review'' (IStr ''65a000000000000000000001'')
       ''medium'' 10 10 (Some 60)"

definition ex_task_done :: "nat doc" where
  "ex_task_done = set_fields [(''status'', Str ''completed''), (''completed_at'', Date 30)]
     ((''_id'', Oid 4) #
      task_data ''TASK-0003'' ''Unit testing'' ''Write tests'' (IStr ''65a000000000000000000001'')
        ''urgent'' 10 10 (Some 20))"

definition ex_tasks3 :: "nat task_db" where
  "ex_tasks3 = \<lparr>tasks = [ex_task, ex_task_due_now, ex_task_done],
                users = [ex_user\<lparr>task_count := 3\<rparr>]\<rparr>"

definition ex_tasks_array :: "nat task_db" where
  "ex_tasks_array = snd (update_task ex_oid 20 21 (IStr ''TASK-0001'')
     [(''status'', Arr [Str ''completed''])] ex_tasks1)"

definition ex_calls :: "nat create_call list" where
  "ex_calls =
     [\<lparr>call_new_id = 2, call_t1 = 10, call_t2 = 10, call_title = ''Develop UI'',
       call_description = ''Create UI'', call_priority = ''high'', call_due_date = Some 50\<rparr>,
      \<lparr>call_new_id = 3, call_t1 = 11, call_t2 = 11, call_title = ''Unit testing'',
       call_description = ''Write tests'', call_priority = ''urgent'', call_due_date = None\<rparr>]"

chapter \<open>Properties\<close>

section \<open>Reading time\<close>

lemma split_from_words: "split_from [] (concat (replicate n [97, 32])) = replicate n [97]"
  by (induction n) (simp_all add: py_isspace_def)

lemma py_round_div_cases:
  fixes w :: int
  obtains q r where "w = 200 * q + r" "0 \<le> r" "r < 200"
    "py_round_div w 200 =
       (if r < 100 then q else if 100 < r then q + 1 else if even q then q else q + 1)"
proof -
  have "w = 200 * (w div 200) + w mod 200" by simp
  moreover have "0 \<le> w mod 200" "w mod 200 < 200" by simp_all
  moreover have "py_round_div w 200 =
      (if w mod 200 < 100 then w div 200 else if 100 < w mod 200 then w div 200 + 1
       else if even (w div 200) then w div 200 else w div 200 + 1)"
    by (simp add: py_round_div_def Let_def)
  ultimately show ?thesis using that by blast
qed

lemma py_round_div_200: "\<bar>200 * py_round_div w 200 - w\<bar> \<le> 100"
  by (rule py_round_div_cases [of w]) (simp split: if_splits)

lemma py_round_div_tie:
  "\<bar>200 * py_round_div w 200 - w\<bar> = 100 \<Longrightarrow> even (py_round_div w 200)"
  by (rule py_round_div_cases [of w]) (auto split: if_splits)

lemma py_round_div_small: "0 \<le> w \<Longrightarrow> w \<le> 100 \<Longrightarrow> py_round_div w 200 \<le> 0"
proof (rule py_round_div_cases [of w])
  fix q r :: int
  assume w: "0 \<le> w" "w \<le> 100" "w = 200 * q + r" "0 \<le> r" "r < 200"
    and p: "py_round_div w 200 =
      (if r < 100 then q else if 100 < r then q + 1 else if even q then q else q + 1)"
  from w have q: "q = 0" by linarith
  with w have "r \<le> 100" by simp
  with p q show ?thesis by simp
qed

lemma py_round_div_large: "100 < w \<Longrightarrow> 1 \<le> py_round_div w 200"
  by (rule py_round_div_cases [of w]) (auto split: if_splits)

text \<open>
  Claim C9, as the claim words it: the reading time is the word count divided by 200,
  at least 1. On a text of 300 words the method returns 2, which is neither the integer
  quotient (1) nor the exact quotient (one and a half).
\<close>

theorem reading_time_not_quotient:
  "int (length (py_split three_hundred_words)) = 300 \<and>
   calculate_reading_time three_hundred_words = 2 \<and>
   calculate_reading_time three_hundred_words
     \<noteq> max 1 (int (length (py_split three_hundred_words)) div 200) \<and>
   calculate_reading_time three_hundred_words * 200
     \<noteq> int (length (py_split three_hundred_words))"
  by (simp add: calculate_reading_time_def py_split_def three_hundred_words_def
      split_from_words py_round_div_def)

text \<open>
  Claim C9, amended: the reading time stored at article creation is the quotient of the
  word count by 200 rounded to the nearest integer, a tie going to the even neighbour,
  and at least 1. With \<open>w\<close> the word count: the result is 1 up to 100 words; above, it
  differs from \<open>w / 200\<close> by at most one half, and is even when it differs by exactly
  one half. \<^verbatim>\<open>create_article\<close> stores that value with the article it inserts.
\<close>

theorem reading_time_rounds:
  "1 \<le> calculate_reading_time txt \<and>
   (int (length (py_split txt)) \<le> 100 \<longrightarrow> calculate_reading_time txt = 1) \<and>
   (100 < int (length (py_split txt)) \<longrightarrow>
      \<bar>200 * calculate_reading_time txt - int (length (py_split txt))\<bar> \<le> 100 \<and>
      (\<bar>200 * calculate_reading_time txt - int (length (py_split txt))\<bar> = 100
         \<longrightarrow> even (calculate_reading_time txt))) \<and>
   reading_time (article_data new_id t1 t2 t3 ttl txt author cat tgs st)
     = calculate_reading_time txt \<and>
   map reading_time (articles (snd (create_article new_id t1 t2 t3 ttl txt author cat tgs st db)))
     = map reading_time (articles db) @
       (if new_id \<in> set (map a_id (articles db)) then [] else [calculate_reading_time txt])"
proof -
  define w where "w = int (length (py_split txt))"
  have w0: "0 \<le> w" by (simp add: w_def)
  have rt: "calculate_reading_time txt = max 1 (py_round_div w 200)"
    by (simp add: calculate_reading_time_def w_def)
  have a: "w \<le> 100 \<Longrightarrow> max 1 (py_round_div w 200) = 1"
    using py_round_div_small [OF w0] by simp
  have b: "100 < w \<Longrightarrow> max 1 (py_round_div w 200) = py_round_div w 200"
    using py_round_div_large [of w] by simp
  have c: "reading_time (article_data new_id t1 t2 t3 ttl txt author cat tgs st)
     = calculate_reading_time txt"
    by (simp add: article_data_def)
  have d: "map reading_time
      (articles (snd (create_article new_id t1 t2 t3 ttl txt author cat tgs st db)))
     = map reading_time (articles db) @
       (if new_id \<in> set (map a_id (articles db)) then [] else [calculate_reading_time txt])"
    by (simp add: create_article_def c)
  have e: "1 \<le> calculate_reading_time txt \<and>
     (w \<le> 100 \<longrightarrow> calculate_reading_time txt = 1) \<and>
     (100 < w \<longrightarrow>
        \<bar>200 * calculate_reading_time txt - w\<bar> \<le> 100 \<and>
        (\<bar>200 * calculate_reading_time txt - w\<bar> = 100 \<longrightarrow> even (calculate_reading_time txt)))"
    unfolding rt
    using a b py_round_div_200 [of w] py_round_div_tie [of w]
    by auto
  from e c d show ?thesis unfolding w_def by blast
qed

theorem reading_time_rounds_witness:
  "100 < int (length (py_split three_hundred_words)) \<and>
   \<bar>200 * calculate_reading_time three_hundred_words
       - int (length (py_split three_hundred_words))\<bar> = 100 \<and>
   calculate_reading_time three_hundred_words = 2"
proof -
  have w: "int (length (py_split three_hundred_words)) = 300"
    by (simp add: py_split_def three_hundred_words_def split_from_words)
  from reading_time_rounds [of three_hundred_words "0::nat" 0 0 0 "[]" "[]" "[]" "[]" "[]"
      "\<lparr>blog_users = [], articles = []\<rparr>"]
  have "\<bar>200 * calculate_reading_time three_hundred_words - 300\<bar> \<le> 100"
    "\<bar>200 * calculate_reading_time three_hundred_words - 300\<bar> = 100
       \<longrightarrow> even (calculate_reading_time three_hundred_words)"
    unfolding w by simp_all
  then have "calculate_reading_time three_hundred_words = 2"
    by (cases "calculate_reading_time three_hundred_words = 1") auto
  then show ?thesis by (simp add: w)
qed

section \<open>Popular articles\<close>

lemma lookup_author_fst:
  "r \<in> set (lookup_author oid_of us p) \<Longrightarrow> fst r = fst p \<and> fst (snd r) = snd p"
  by (auto simp: lookup_author_def split: option.splits)

lemma filter_distinct_le1:
  "distinct (map f xs) \<Longrightarrow> length (filter (\<lambda>x. f x = k) xs) \<le> 1"
proof (induction xs)
  case Nil
  then show ?case by simp
next
  case (Cons x xs)
  show ?case
  proof (cases "f x = k")
    case True
    from Cons.prems have "f x \<notin> f ` set xs" by simp
    with True have "\<forall>y \<in> set xs. f y \<noteq> k" by blast
    then have "filter (\<lambda>x. f x = k) xs = []"
      by (simp add: filter_empty_conv)
    with True show ?thesis by simp
  next
    case False
    with Cons show ?thesis by simp
  qed
qed

lemma lookup_author_length:
  "distinct (map bu_id us) \<Longrightarrow> length (lookup_author oid_of us p) \<le> 1"
  using filter_distinct_le1 [of bu_id us]
  by (auto simp: lookup_author_def split: option.splits)

lemma concat_lookup_length:
  "distinct (map bu_id us) \<Longrightarrow> length (concat (map (lookup_author oid_of us) ps)) \<le> length ps"
proof (induction ps)
  case Nil
  then show ?case by simp
next
  case (Cons p ps)
  from lookup_author_length [OF Cons.prems, of oid_of p] Cons.IH [OF Cons.prems]
  show ?case by simp
qed

lemma concat_lookup_sorted:
  "sorted_wrt (\<lambda>x y. snd y \<le> snd x) ps \<Longrightarrow>
   sorted_wrt (\<lambda>x y. fst (snd y) \<le> fst (snd x)) (concat (map (lookup_author oid_of us) ps))"
proof (induction ps)
  case Nil
  then show ?case by simp
next
  case (Cons p ps)
  have here: "sorted_wrt (\<lambda>x y. fst (snd y) \<le> fst (snd x)) (lookup_author oid_of us p)"
    by (simp add: lookup_author_def sorted_wrt_map split: option.splits)
  from Cons show ?case
    by (auto simp: sorted_wrt_append here dest!: lookup_author_fst)
qed

lemma sort_key_desc:
  "sorted_wrt (\<lambda>x y. snd y \<le> snd x) (sort_key (\<lambda>p. - snd p) (ps :: ('a \<times> int) list))"
proof -
  have "sorted (map (\<lambda>p. - snd p) (sort_key (\<lambda>p. - snd p) ps))"
    by (rule sorted_sort_key)
  then show ?thesis by (simp add: sorted_map)
qed

lemma popular_set:
  assumes "r \<in> set (get_popular_articles oid_of now days limit db)"
  shows "fst r \<in> set (articles db) \<and> match_popular (now - days * ms_per_day) (fst r)
         \<and> fst (snd r) = popularity_score (fst r)"
proof -
  let ?sorted = "sort_key (\<lambda>p. - snd p) (map (\<lambda>a. (a, popularity_score a))
      (filter (match_popular (now - days * ms_per_day)) (articles db)))"
  from assms obtain p where p: "p \<in> set (take (nat limit) ?sorted)"
    and r: "r \<in> set (lookup_author oid_of (blog_users db) p)"
    by (auto simp: get_popular_articles_def Let_def split: if_splits)
  from p have "p \<in> set ?sorted" by (rule in_set_takeD)
  then have "fst p \<in> set (articles db)" "match_popular (now - days * ms_per_day) (fst p)"
    "snd p = popularity_score (fst p)" by auto
  with lookup_author_fst [OF r] show ?thesis by simp
qed

lemma popular_sorted:
  "sorted_wrt (\<lambda>x y. fst (snd y) \<le> fst (snd x)) (get_popular_articles oid_of now days limit db)"
  by (simp add: get_popular_articles_def Let_def concat_lookup_sorted sort_key_desc sorted_wrt_take)

lemma popular_length:
  assumes "distinct (map bu_id (blog_users db))"
  shows "int (length (get_popular_articles oid_of now days limit db)) \<le> max 0 limit"
proof (cases "limit \<le> 0")
  case True
  then show ?thesis by (simp add: get_popular_articles_def Let_def)
next
  case False
  have "int (length (concat (map (lookup_author oid_of (blog_users db)) (take (nat limit) xs))))
      \<le> limit" for xs
  proof -
    have "length (concat (map (lookup_author oid_of (blog_users db)) (take (nat limit) xs)))
        \<le> length (take (nat limit) xs)"
      by (rule concat_lookup_length [OF assms])
    also have "\<dots> \<le> nat limit" by simp
    finally show ?thesis using False by linarith
  qed
  with False show ?thesis by (simp add: get_popular_articles_def Let_def)
qed

lemma lookup_author_join:
  "lookup_author oid_of us (a, s) =
     map (\<lambda>u. (a, s, u)) (filter (\<lambda>u. oid_of (author_id a) = Some (bu_id u)) us)"
proof (cases "oid_of (author_id a)")
  case None
  then show ?thesis by (simp add: lookup_author_def)
next
  case (Some aid)
  have "filter (\<lambda>u. bu_id u = aid) us = filter (\<lambda>u. aid = bu_id u) us"
    by (rule filter_cong) auto
  with Some show ?thesis by (simp add: lookup_author_def)
qed

lemma insort_key_map_score:
  "insort_key (\<lambda>p. - snd p) (a, f a) (map (\<lambda>a. (a, f a)) xs) =
     map (\<lambda>a. (a, f a)) (insort_key (\<lambda>a. - f a) a xs)"
  by (induction xs) simp_all

lemma sort_key_map_score:
  "sort_key (\<lambda>p. - snd p) (map (\<lambda>a. (a, f a)) xs) =
     map (\<lambda>a. (a, f a)) (sort_key (\<lambda>a. - f a) xs)"
  by (induction xs) (simp_all add: insort_key_map_score)

lemma sort_key_desc_score:
  "sorted_wrt (\<lambda>a b. f b \<le> f a) (sort_key (\<lambda>a. - f a) (xs :: 'a list))" for f :: "'a \<Rightarrow> int"
proof -
  have "sorted (map (\<lambda>a. - f a) (sort_key (\<lambda>a. - f a) xs))"
    by (rule sorted_sort_key)
  then show ?thesis by (simp add: sorted_map)
qed

lemma popular_ranked:
  "get_popular_articles oid_of now days limit db =
    (if 999999999 < \<bar>days\<bar> \<or> now - days * ms_per_day < datetime_min \<or>
        datetime_max < now - days * ms_per_day \<or> limit \<le> 0 \<or> max_int64 < limit \<or>
        list_ex (\<lambda>a. oid_of (author_id a) = None)
          (take (nat limit) (sort_key (\<lambda>a. - popularity_score a)
             (filter (match_popular (now - days * ms_per_day)) (articles db))))
     then []
     else concat (map (\<lambda>a. map (\<lambda>u. (a, popularity_score a, u))
                    (filter (\<lambda>u. oid_of (author_id a) = Some (bu_id u)) (blog_users db)))
            (take (nat limit) (sort_key (\<lambda>a. - popularity_score a)
               (filter (match_popular (now - days * ms_per_day)) (articles db))))))"
proof -
  let ?M = "filter (match_popular (now - days * ms_per_day)) (articles db)"
  let ?ranked = "sort_key (\<lambda>a. - popularity_score a) ?M"
  let ?row = "\<lambda>a. map (\<lambda>u. (a, popularity_score a, u))
                    (filter (\<lambda>u. oid_of (author_id a) = Some (bu_id u)) (blog_users db))"
  have s: "sort_key (\<lambda>p. - snd p) (map (\<lambda>a. (a, popularity_score a)) ?M) =
      map (\<lambda>a. (a, popularity_score a)) ?ranked"
    by (rule sort_key_map_score)
  have t: "take (nat limit) (map (\<lambda>a. (a, popularity_score a)) ?ranked) =
      map (\<lambda>a. (a, popularity_score a)) (take (nat limit) ?ranked)"
    by (rule take_map)
  have e: "list_ex (\<lambda>p. oid_of (author_id (fst p)) = None)
        (map (\<lambda>a. (a, popularity_score a)) (take (nat limit) ?ranked)) =
      list_ex (\<lambda>a. oid_of (author_id a) = None) (take (nat limit) ?ranked)"
    by (simp add: list_ex_iff)
  have c: "concat (map (lookup_author oid_of (blog_users db))
        (map (\<lambda>a. (a, popularity_score a)) (take (nat limit) ?ranked))) =
      concat (map ?row (take (nat limit) ?ranked))"
    by (simp add: lookup_author_join comp_def)
  show ?thesis
    unfolding get_popular_articles_def Let_def s t e c by simp
qed


lemma row_length_one:
  assumes "distinct (map bu_id us)" "\<exists>u\<in>set us. k = Some (bu_id u)"
  shows "length (filter (\<lambda>u. k = Some (bu_id u)) us) = 1"
proof -
  from assms(2) obtain u where u: "u \<in> set us" "k = Some (bu_id u)" by blast
  have "filter (\<lambda>v. k = Some (bu_id v)) us = filter (\<lambda>v. bu_id v = bu_id u) us"
    using u(2) by (intro filter_cong refl) auto
  moreover have "length (filter (\<lambda>v. bu_id v = bu_id u) us) \<le> 1"
    by (rule filter_distinct_le1 [OF assms(1)])
  moreover from u(1) have "filter (\<lambda>v. bu_id v = bu_id u) us \<noteq> []"
    by (auto simp: filter_empty_conv)
  ultimately show ?thesis
    by (cases "filter (\<lambda>v. bu_id v = bu_id u) us") simp_all
qed

lemma concat_rows_length:
  "(\<And>x. x \<in> set xs \<Longrightarrow> length (f x) = 1) \<Longrightarrow> length (concat (map f xs)) = length xs"
  by (induction xs) simp_all

lemma popular_top:
  assumes r: "r \<in> set (get_popular_articles oid_of now days limit db)"
    and a: "a \<in> set (filter (match_popular (now - days * ms_per_day)) (articles db))"
    and u: "\<exists>u\<in>set (blog_users db). oid_of (author_id a) = Some (bu_id u)"
    and n: "a \<notin> fst ` set (get_popular_articles oid_of now days limit db)"
  shows "popularity_score a \<le> fst (snd r)"
proof -
  let ?M = "filter (match_popular (now - days * ms_per_day)) (articles db)"
  let ?ranked = "sort_key (\<lambda>a. - popularity_score a) ?M"
  let ?row = "\<lambda>a. map (\<lambda>u. (a, popularity_score a, u))
                    (filter (\<lambda>u. oid_of (author_id a) = Some (bu_id u)) (blog_users db))"
  from r have ne: "get_popular_articles oid_of now days limit db \<noteq> []" by auto
  have res: "get_popular_articles oid_of now days limit db
      = concat (map ?row (take (nat limit) ?ranked))"
    using ne popular_ranked [of oid_of now days limit db] by (auto split: if_splits)
  from r obtain b where b: "b \<in> set (take (nat limit) ?ranked)" "r \<in> set (?row b)"
    unfolding res by auto
  then have rb: "fst (snd r) = popularity_score b" by auto
  from u obtain v where v: "v \<in> set (blog_users db)" "oid_of (author_id a) = Some (bu_id v)"
    by blast
  have "a \<notin> set (take (nat limit) ?ranked)"
  proof
    assume "a \<in> set (take (nat limit) ?ranked)"
    with v have "(a, popularity_score a, v) \<in> set (concat (map ?row (take (nat limit) ?ranked)))"
      by auto
    then have "a \<in> fst ` set (get_popular_articles oid_of now days limit db)"
      unfolding res by force
    with n show False by simp
  qed
  moreover from a have "a \<in> set ?ranked" by simp
  ultimately have d: "a \<in> set (drop (nat limit) ?ranked)"
    by (metis Un_iff append_take_drop_id set_append)
  have "sorted_wrt (\<lambda>a b. popularity_score b \<le> popularity_score a)
      (take (nat limit) ?ranked @ drop (nat limit) ?ranked)"
    by (simp add: sort_key_desc_score)
  with b(1) d have "popularity_score a \<le> popularity_score b"
    unfolding sorted_wrt_append by blast
  with rb show ?thesis by simp
qed

lemma popular_count:
  assumes d: "distinct (map bu_id (blog_users db))"
    and ok: "\<not> (999999999 < \<bar>days\<bar> \<or> now - days * ms_per_day < datetime_min \<or>
        datetime_max < now - days * ms_per_day \<or> limit \<le> 0 \<or> max_int64 < limit)"
    and all: "\<forall>a\<in>set (filter (match_popular (now - days * ms_per_day)) (articles db)).
        \<exists>u\<in>set (blog_users db). oid_of (author_id a) = Some (bu_id u)"
  shows "length (get_popular_articles oid_of now days limit db) =
     min (nat limit) (length (filter (match_popular (now - days * ms_per_day)) (articles db)))"
proof -
  let ?M = "filter (match_popular (now - days * ms_per_day)) (articles db)"
  let ?ranked = "sort_key (\<lambda>a. - popularity_score a) ?M"
  let ?row = "\<lambda>a. map (\<lambda>u. (a, popularity_score a, u))
                    (filter (\<lambda>u. oid_of (author_id a) = Some (bu_id u)) (blog_users db))"
  have sub: "x \<in> set ?M" if "x \<in> set (take (nat limit) ?ranked)" for x
    using in_set_takeD [OF that] by simp
  have author: "\<exists>u\<in>set (blog_users db). oid_of (author_id x) = Some (bu_id u)"
    if "x \<in> set (take (nat limit) ?ranked)" for x
    using all sub [OF that] by (rule bspec)
  have valid: "\<not> list_ex (\<lambda>a. oid_of (author_id a) = None) (take (nat limit) ?ranked)"
  proof
    assume "list_ex (\<lambda>a. oid_of (author_id a) = None) (take (nat limit) ?ranked)"
    then obtain x where x: "x \<in> set (take (nat limit) ?ranked)" "oid_of (author_id x) = None"
      unfolding list_ex_iff by blast
    from author [OF x(1)] x(2) show False by simp
  qed
  from ok have ok': "\<not> 999999999 < \<bar>days\<bar>" "\<not> now - days * ms_per_day < datetime_min"
    "\<not> datetime_max < now - days * ms_per_day" "\<not> limit \<le> 0" "\<not> max_int64 < limit"
    by simp_all
  have res: "get_popular_articles oid_of now days limit db
      = concat (map ?row (take (nat limit) ?ranked))"
    unfolding popular_ranked [of oid_of now days limit db] using ok' valid by (simp only: if_False simp_thms)
  have one: "length (?row x) = 1" if "x \<in> set (take (nat limit) ?ranked)" for x
    using row_length_one [OF d author [OF that]] by simp
  have "length (concat (map ?row (take (nat limit) ?ranked))) = length (take (nat limit) ?ranked)"
    by (rule concat_rows_length) (rule one)
  then show ?thesis unfolding res by (simp add: min.commute)
qed


text \<open>
  Claim C8: the score of an article is views times 1 plus likes times 3 plus comments
  times 2 (18 for 10 views, 2 likes and 1 comment). The report is built from a ranking of
  exactly the published articles whose published date is not before the start of the
  trailing window, ordered by score, largest first: it joins the first \<open>limit\<close> articles
  of that ranking with their authors, and is empty when the arguments are rejected or an
  author reference among them is no identifier. So every returned article is such an
  article and carries its score, the report is ordered by score and has at most \<open>limit\<close>
  entries, no matching article with an existing author that is left out scores higher
  than a returned one, and when every matching article has an existing author the report
  has \<open>limit\<close> entries or all the matching articles, whichever is fewer. User identifiers
  are unique in their collection.
\<close>

theorem popular_articles_report:
  assumes "distinct (map bu_id (blog_users db))"
  shows "popularity_score a = view_count a * 1 + like_count a * 3 + comment_count a * 2 \<and>
   (view_count a = 10 \<and> like_count a = 2 \<and> comment_count a = 1 \<longrightarrow> popularity_score a = 18) \<and>
   (\<forall>r \<in> set (get_popular_articles oid_of now days limit db).
      fst r \<in> set (articles db) \<and> status (fst r) = ''published'' \<and>
      (\<exists>d. published_date (fst r) = Some d \<and> now - days * ms_per_day \<le> d) \<and>
      fst (snd r) = view_count (fst r) * 1 + like_count (fst r) * 3 + comment_count (fst r) * 2) \<and>
   sorted_wrt (\<lambda>x y. fst (snd y) \<le> fst (snd x)) (get_popular_articles oid_of now days limit db) \<and>
   int (length (get_popular_articles oid_of now days limit db)) \<le> max 0 limit \<and>
   (\<exists>ranked.
      mset ranked = mset (filter (match_popular (now - days * ms_per_day)) (articles db)) \<and>
      sorted_wrt (\<lambda>x y. popularity_score y \<le> popularity_score x) ranked \<and>
      get_popular_articles oid_of now days limit db =
        (if 999999999 < \<bar>days\<bar> \<or> now - days * ms_per_day < datetime_min \<or>
            datetime_max < now - days * ms_per_day \<or> limit \<le> 0 \<or> max_int64 < limit \<or>
            list_ex (\<lambda>x. oid_of (author_id x) = None) (take (nat limit) ranked)
         then []
         else concat (map (\<lambda>x. map (\<lambda>u. (x, popularity_score x, u))
                        (filter (\<lambda>u. oid_of (author_id x) = Some (bu_id u)) (blog_users db)))
                (take (nat limit) ranked)))) \<and>
   (\<forall>x \<in> set (filter (match_popular (now - days * ms_per_day)) (articles db)).
    \<forall>r \<in> set (get_popular_articles oid_of now days limit db).
      (\<exists>u\<in>set (blog_users db). oid_of (author_id x) = Some (bu_id u)) \<and>
      x \<notin> fst ` set (get_popular_articles oid_of now days limit db)
        \<longrightarrow> popularity_score x \<le> fst (snd r)) \<and>
   (\<not> (999999999 < \<bar>days\<bar> \<or> now - days * ms_per_day < datetime_min \<or>
        datetime_max < now - days * ms_per_day \<or> limit \<le> 0 \<or> max_int64 < limit) \<and>
    (\<forall>x\<in>set (filter (match_popular (now - days * ms_per_day)) (articles db)).
        \<exists>u\<in>set (blog_users db). oid_of (author_id x) = Some (bu_id u)) \<longrightarrow>
      length (get_popular_articles oid_of now days limit db) =
        min (nat limit) (length (filter (match_popular (now - days * ms_per_day)) (articles db))))"
proof -
  let ?M = "filter (match_popular (now - days * ms_per_day)) (articles db)"
  let ?res = "get_popular_articles oid_of now days limit db"
  have p1: "popularity_score a = view_count a * 1 + like_count a * 3 + comment_count a * 2"
    by (simp add: popularity_score_def)
  have p2: "view_count a = 10 \<and> like_count a = 2 \<and> comment_count a = 1 \<longrightarrow> popularity_score a = 18"
    by (simp add: popularity_score_def)
  have p3: "\<forall>r \<in> set ?res.
      fst r \<in> set (articles db) \<and> status (fst r) = ''published'' \<and>
      (\<exists>d. published_date (fst r) = Some d \<and> now - days * ms_per_day \<le> d) \<and>
      fst (snd r) = view_count (fst r) * 1 + like_count (fst r) * 3 + comment_count (fst r) * 2"
  proof
    fix r assume "r \<in> set ?res"
    from popular_set [OF this] show "fst r \<in> set (articles db) \<and> status (fst r) = ''published'' \<and>
      (\<exists>d. published_date (fst r) = Some d \<and> now - days * ms_per_day \<le> d) \<and>
      fst (snd r) = view_count (fst r) * 1 + like_count (fst r) * 3 + comment_count (fst r) * 2"
      by (auto simp: match_popular_def popularity_score_def split: option.splits)
  qed
  have p4: "sorted_wrt (\<lambda>x y. fst (snd y) \<le> fst (snd x)) ?res"
    by (rule popular_sorted)
  have p5: "int (length ?res) \<le> max 0 limit"
    by (rule popular_length [OF assms])
  have p6: "\<exists>ranked.
      mset ranked = mset ?M \<and>
      sorted_wrt (\<lambda>x y. popularity_score y \<le> popularity_score x) ranked \<and>
      ?res =
        (if 999999999 < \<bar>days\<bar> \<or> now - days * ms_per_day < datetime_min \<or>
            datetime_max < now - days * ms_per_day \<or> limit \<le> 0 \<or> max_int64 < limit \<or>
            list_ex (\<lambda>x. oid_of (author_id x) = None) (take (nat limit) ranked)
         then []
         else concat (map (\<lambda>x. map (\<lambda>u. (x, popularity_score x, u))
                        (filter (\<lambda>u. oid_of (author_id x) = Some (bu_id u)) (blog_users db)))
                (take (nat limit) ranked)))"
    by (rule exI [of _ "sort_key (\<lambda>a. - popularity_score a) ?M"])
       (simp only: mset_sort sort_key_desc_score popular_ranked [of oid_of now days limit db] simp_thms)
  have p7: "\<forall>x \<in> set ?M. \<forall>r \<in> set ?res.
      (\<exists>u\<in>set (blog_users db). oid_of (author_id x) = Some (bu_id u)) \<and>
      x \<notin> fst ` set ?res \<longrightarrow> popularity_score x \<le> fst (snd r)"
    using popular_top [of _ oid_of now days limit db] by blast
  have p8: "\<not> (999999999 < \<bar>days\<bar> \<or> now - days * ms_per_day < datetime_min \<or>
        datetime_max < now - days * ms_per_day \<or> limit \<le> 0 \<or> max_int64 < limit) \<and>
    (\<forall>x\<in>set ?M. \<exists>u\<in>set (blog_users db). oid_of (author_id x) = Some (bu_id u)) \<longrightarrow>
      length ?res = min (nat limit) (length ?M)"
    using popular_count [OF assms, of days now limit oid_of] by blast
  show ?thesis
    by (rule conjI [OF p1 conjI [OF p2 conjI [OF p3 conjI [OF p4 conjI [OF p5 conjI [OF p6
        conjI [OF p7 p8]]]]]]])
qed


theorem popular_articles_report_witness:
  "distinct (map bu_id (blog_users ex_blog)) \<and>
   view_count ex_liked = 10 \<and> like_count ex_liked = 2 \<and> comment_count ex_liked = 1 \<and>
   popularity_score ex_liked = 18 \<and>
   (ex_liked, 18, ex_author) \<in> set (get_popular_articles ex_oid (7 * ms_per_day + 100) 7 10 ex_blog) \<and>
   status ex_liked = ''published'' \<and>
   length (get_popular_articles ex_oid (7 * ms_per_day + 100) 7 10 ex_blog) = 2 \<and>
   get_popular_articles ex_oid (7 * ms_per_day + 100) 7 1 ex_blog =
     [(ex_article 4 ''published'' (Some 200) 20 2 2 [''alice'', ''alice''], 30, ex_author)] \<and>
   ex_liked \<in> set (filter (match_popular (7 * ms_per_day + 100 - 7 * ms_per_day)) (articles ex_blog)) \<and>
   ex_liked \<notin> fst ` set (get_popular_articles ex_oid (7 * ms_per_day + 100) 7 1 ex_blog) \<and>
   popularity_score ex_liked \<le> 30 \<and>
   length (get_popular_articles ex_oid (7 * ms_per_day + 100) 7 1 ex_blog) = 1"
proof -
  let ?top = "ex_article 4 ''published'' (Some 200) 20 2 2 [''alice'', ''alice'']"
  let ?M = "filter (match_popular (7 * ms_per_day + 100 - 7 * ms_per_day)) (articles ex_blog)"
  have run: "get_popular_articles ex_oid (7 * ms_per_day + 100) 7 10 ex_blog =
      [(?top, 30, ex_author), (ex_liked, 18, ex_author)]"
    by (simp add: get_popular_articles_def match_popular_def popularity_score_def
        lookup_author_def ex_oid_def ex_blog_def ex_liked_def ex_article_def article_data_def
        ex_author_def ms_per_day_def datetime_min_def datetime_max_def max_int64_def)
  have run1: "get_popular_articles ex_oid (7 * ms_per_day + 100) 7 1 ex_blog =
      [(?top, 30, ex_author)]"
    by (simp add: get_popular_articles_def match_popular_def popularity_score_def
        lookup_author_def ex_oid_def ex_blog_def ex_liked_def ex_article_def article_data_def
        ex_author_def ms_per_day_def datetime_min_def datetime_max_def max_int64_def)
  have d: "distinct (map bu_id (blog_users ex_blog))"
    by (simp add: ex_blog_def)
  have v: "view_count ex_liked = 10 \<and> like_count ex_liked = 2 \<and> comment_count ex_liked = 1"
    by (simp add: ex_liked_def ex_article_def)
  have m: "?M = [ex_liked, ?top]"
    by (simp add: match_popular_def ex_blog_def ex_liked_def ex_article_def article_data_def
        ms_per_day_def)
  have au: "\<forall>x\<in>set ?M. \<exists>u\<in>set (blog_users ex_blog). ex_oid (author_id x) = Some (bu_id u)"
    unfolding m
    by (simp add: ex_blog_def ex_liked_def ex_article_def article_data_def ex_author_def ex_oid_def)
  have ok: "\<not> (999999999 < \<bar>7 :: int\<bar> \<or> 7 * ms_per_day + 100 - 7 * ms_per_day < datetime_min \<or>
        datetime_max < 7 * ms_per_day + 100 - 7 * ms_per_day \<or> (1 :: int) \<le> 0 \<or> max_int64 < 1)"
    by (simp add: datetime_min_def datetime_max_def max_int64_def)
  have ne: "ex_liked \<noteq> ?top"
    by (simp add: ex_liked_def ex_article_def article_data_def)
  have out: "ex_liked \<notin> fst ` set (get_popular_articles ex_oid (7 * ms_per_day + 100) 7 1 ex_blog)"
    by (simp add: run1 ne)
  note th10 = popular_articles_report [OF d, of ex_liked ex_oid "7 * ms_per_day + 100" 7 10]
  note th1 = popular_articles_report [OF d, of ex_liked ex_oid "7 * ms_per_day + 100" 7 1]
  note top = th1 [THEN conjunct2, THEN conjunct2, THEN conjunct2, THEN conjunct2,
      THEN conjunct2, THEN conjunct2, THEN conjunct1, THEN bspec, THEN bspec, THEN mp]
  note count = th1 [THEN conjunct2, THEN conjunct2, THEN conjunct2, THEN conjunct2,
      THEN conjunct2, THEN conjunct2, THEN conjunct2, THEN mp]
  have inM: "ex_liked \<in> set ?M" unfolding m by simp
  have inR: "(?top, 30, ex_author)
      \<in> set (get_popular_articles ex_oid (7 * ms_per_day + 100) 7 1 ex_blog)"
    by (simp add: run1)
  have hasu: "\<exists>u\<in>set (blog_users ex_blog). ex_oid (author_id ex_liked) = Some (bu_id u)"
    using au inM by (rule bspec)
  from top [OF inM inR conjI [OF hasu out]]
  have le: "popularity_score ex_liked \<le> 30" by simp
  from count [OF conjI [OF ok au]]
  have len: "length (get_popular_articles ex_oid (7 * ms_per_day + 100) 7 1 ex_blog) = 1"
    unfolding m by simp
  from th10 v have sc: "popularity_score ex_liked = 18" by blast
  have st: "status ex_liked = ''published''"
    by (simp add: ex_liked_def ex_article_def article_data_def)
  have mem: "(ex_liked, 18, ex_author)
      \<in> set (get_popular_articles ex_oid (7 * ms_per_day + 100) 7 10 ex_blog)"
    by (simp add: run)
  have len10: "length (get_popular_articles ex_oid (7 * ms_per_day + 100) 7 10 ex_blog) = 2"
    by (simp add: run)
  from v have v1: "view_count ex_liked = 10" and v2: "like_count ex_liked = 2"
    and v3: "comment_count ex_liked = 1" by simp_all
  show ?thesis
    by (intro conjI) (fact d v1 v2 v3 sc mem st len10 run1 inM out le len)+
qed

section \<open>Likes\<close>

lemma find_update_one:
  assumes "\<And>x. q (f x) = q x"
  shows "find q (snd (update_one q f xs)) = map_option f (find q xs)"
  by (induction xs) (auto simp: assms split: prod.splits)

lemma modified_update_one:
  "find q xs = Some x \<Longrightarrow> modified_count (fst (update_one q f xs)) = (if f x = x then 0 else 1)"
  by (induction xs) (auto split: prod.splits if_splits)

lemma like_article_found:
  assumes "oid_of article_id = Some aid" "find (\<lambda>a. a_id a = aid) (articles db) = Some a"
  shows "fst (like_article oid_of article_id user_id db) = True"
    and "find (\<lambda>a. a_id a = aid) (articles (snd (like_article oid_of article_id user_id db))) =
       Some (if user_id \<in> set (likes a)
             then a\<lparr>likes := removeAll user_id (likes a), like_count := like_count a - 1\<rparr>
             else a\<lparr>likes := likes a @ [user_id], like_count := like_count a + 1\<rparr>)"
    and "blog_users (snd (like_article oid_of article_id user_id db)) = blog_users db"
proof -
  let ?q = "\<lambda>a. a_id a = aid"
  let ?f = "\<lambda>a :: 'a article. a\<lparr>likes := removeAll user_id (likes a), like_count := like_count a + (- 1)\<rparr>"
  let ?g = "\<lambda>a :: 'a article. a\<lparr>likes := likes a @ [user_id], like_count := like_count a + 1\<rparr>"
  have f: "find ?q (snd (update_one ?q ?f (articles db))) = Some (?f a)"
    using assms(2) by (simp add: find_update_one)
  have g: "find ?q (snd (update_one ?q ?g (articles db))) = Some (?g a)"
    using assms(2) by (simp add: find_update_one)
  have "like_count (?f a) \<noteq> like_count a" by simp
  then have "?f a \<noteq> a" by metis
  then have mf: "modified_count (fst (update_one ?q ?f (articles db))) = 1"
    using modified_update_one [OF assms(2), of ?f] by simp
  have "like_count (?g a) \<noteq> like_count a" by simp
  then have "?g a \<noteq> a" by metis
  then have mg: "modified_count (fst (update_one ?q ?g (articles db))) = 1"
    using modified_update_one [OF assms(2), of ?g] by simp
  show "fst (like_article oid_of article_id user_id db) = True"
    using assms mf mg by (auto simp: like_article_def split: prod.splits)
  show "find (\<lambda>a. a_id a = aid) (articles (snd (like_article oid_of article_id user_id db))) =
       Some (if user_id \<in> set (likes a)
             then a\<lparr>likes := removeAll user_id (likes a), like_count := like_count a - 1\<rparr>
             else a\<lparr>likes := likes a @ [user_id], like_count := like_count a + 1\<rparr>)"
    using assms f g by (auto simp: like_article_def split: prod.splits)
  show "blog_users (snd (like_article oid_of article_id user_id db)) = blog_users db"
    using assms by (auto simp: like_article_def split: prod.splits)
qed

lemma length_removeAll_distinct:
  "distinct xs \<Longrightarrow> x \<in> set xs \<Longrightarrow> int (length (removeAll x xs)) = int (length xs) - 1"
proof -
  assume d: "distinct xs" and m: "x \<in> set xs"
  from m have "0 < length xs" by (rule length_pos_if_in_set)
  moreover from d m have "length (removeAll x xs) = length xs - 1"
    by (simp add: distinct_remove1_removeAll [symmetric] length_remove1)
  ultimately show ?thesis by (cases "length xs") simp_all
qed

text \<open>
  Claim C10, amended: for an existing article, \<^verbatim>\<open>like_article\<close> returns true and toggles
  the user: a user in the likes list is removed and \<^verbatim>\<open>like_count\<close> drops by 1, any other
  user is appended and \<^verbatim>\<open>like_count\<close> grows by 1. Two consecutive calls by the same user
  restore \<^verbatim>\<open>like_count\<close> and the set of users in the likes list, and the whole article
  when the user was not in the list before. When no user is listed twice and
  \<^verbatim>\<open>like_count\<close> equals the length of the likes list, both still hold after a call.
\<close>

theorem like_article_toggle:
  assumes "oid_of article_id = Some aid" "find (\<lambda>a. a_id a = aid) (articles db) = Some a"
  shows
   "(user_id \<in> set (likes a) \<longrightarrow>
       fst (like_article oid_of article_id user_id db) = True \<and>
       find (\<lambda>a. a_id a = aid) (articles (snd (like_article oid_of article_id user_id db)))
         = Some (a\<lparr>likes := removeAll user_id (likes a), like_count := like_count a - 1\<rparr>)) \<and>
    (user_id \<notin> set (likes a) \<longrightarrow>
       fst (like_article oid_of article_id user_id db) = True \<and>
       find (\<lambda>a. a_id a = aid) (articles (snd (like_article oid_of article_id user_id db)))
         = Some (a\<lparr>likes := likes a @ [user_id], like_count := like_count a + 1\<rparr>)) \<and>
    (\<exists>a2. find (\<lambda>a. a_id a = aid)
            (articles (snd (like_article oid_of article_id user_id
                        (snd (like_article oid_of article_id user_id db))))) = Some a2 \<and>
          like_count a2 = like_count a \<and> set (likes a2) = set (likes a) \<and>
          (user_id \<notin> set (likes a) \<longrightarrow> a2 = a)) \<and>
    (distinct (likes a) \<and> like_count a = int (length (likes a)) \<longrightarrow>
       (\<exists>a1. find (\<lambda>a. a_id a = aid) (articles (snd (like_article oid_of article_id user_id db)))
               = Some a1 \<and>
             distinct (likes a1) \<and> like_count a1 = int (length (likes a1))))"
proof -
  let ?db1 = "snd (like_article oid_of article_id user_id db)"
  let ?a1 = "if user_id \<in> set (likes a)
             then a\<lparr>likes := removeAll user_id (likes a), like_count := like_count a - 1\<rparr>
             else a\<lparr>likes := likes a @ [user_id], like_count := like_count a + 1\<rparr>"
  note one = like_article_found [of oid_of article_id aid db a user_id, OF assms]
  have two: "find (\<lambda>a. a_id a = aid) (articles (snd (like_article oid_of article_id user_id ?db1))) =
       Some (if user_id \<in> set (likes ?a1)
             then ?a1\<lparr>likes := removeAll user_id (likes ?a1), like_count := like_count ?a1 - 1\<rparr>
             else ?a1\<lparr>likes := likes ?a1 @ [user_id], like_count := like_count ?a1 + 1\<rparr>)"
    by (rule like_article_found(2) [of oid_of article_id aid ?db1 ?a1 user_id, OF assms(1) one(2)])
  have p1: "user_id \<in> set (likes a) \<longrightarrow>
       fst (like_article oid_of article_id user_id db) = True \<and>
       find (\<lambda>a. a_id a = aid) (articles ?db1)
         = Some (a\<lparr>likes := removeAll user_id (likes a), like_count := like_count a - 1\<rparr>)"
    using one by simp
  have p2: "user_id \<notin> set (likes a) \<longrightarrow>
       fst (like_article oid_of article_id user_id db) = True \<and>
       find (\<lambda>a. a_id a = aid) (articles ?db1)
         = Some (a\<lparr>likes := likes a @ [user_id], like_count := like_count a + 1\<rparr>)"
    using one by simp
  have p3: "\<exists>a2. find (\<lambda>a. a_id a = aid)
            (articles (snd (like_article oid_of article_id user_id ?db1))) = Some a2 \<and>
          like_count a2 = like_count a \<and> set (likes a2) = set (likes a) \<and>
          (user_id \<notin> set (likes a) \<longrightarrow> a2 = a)"
  proof (cases "user_id \<in> set (likes a)")
    case True
    then have "find (\<lambda>a. a_id a = aid)
            (articles (snd (like_article oid_of article_id user_id ?db1)))
        = Some (a\<lparr>likes := removeAll user_id (likes a) @ [user_id], like_count := like_count a\<rparr>)"
      unfolding two by simp
    with True show ?thesis by auto
  next
    case False
    then have "find (\<lambda>a. a_id a = aid)
            (articles (snd (like_article oid_of article_id user_id ?db1))) = Some a"
      unfolding two by simp
    then show ?thesis by simp
  qed
  have p4: "distinct (likes a) \<and> like_count a = int (length (likes a)) \<longrightarrow>
       (\<exists>a1. find (\<lambda>a. a_id a = aid) (articles ?db1) = Some a1 \<and>
             distinct (likes a1) \<and> like_count a1 = int (length (likes a1)))"
    unfolding one(2) by (auto simp: length_removeAll_distinct distinct_removeAll)
  show ?thesis by (rule conjI [OF p1 conjI [OF p2 conjI [OF p3 p4]]])
qed


theorem like_article_toggle_witness:
  "ex_oid ''65a000000000000000000002'' = Some 2 \<and>
   find (\<lambda>a. a_id a = 2) (articles ex_blog) = Some ex_liked \<and>
   ''alice'' \<in> set (likes ex_liked) \<and> ''carol'' \<notin> set (likes ex_liked) \<and>
   distinct (likes ex_liked) \<and> like_count ex_liked = int (length (likes ex_liked)) \<and>
   fst (like_article ex_oid ''65a000000000000000000002'' ''alice'' ex_blog) = True \<and>
   fst (like_article ex_oid ''65a000000000000000000002'' ''carol'' ex_blog) = True \<and>
   find (\<lambda>a. a_id a = 2)
     (articles (snd (like_article ex_oid ''65a000000000000000000002'' ''alice'' ex_blog)))
     = Some (ex_liked\<lparr>likes := [''bob''], like_count := 1\<rparr>) \<and>
   find (\<lambda>a. a_id a = 2)
     (articles (snd (like_article ex_oid ''65a000000000000000000002'' ''carol'' ex_blog)))
     = Some (ex_liked\<lparr>likes := [''alice'', ''bob'', ''carol''], like_count := 3\<rparr>)"
proof -
  have o: "ex_oid ''65a000000000000000000002'' = Some 2"
    by (simp add: ex_oid_def)
  have f: "find (\<lambda>a. a_id a = 2) (articles ex_blog) = Some ex_liked"
    by (simp add: ex_blog_def ex_liked_def ex_article_def article_data_def)
  have l: "likes ex_liked = [''alice'', ''bob'']" "like_count ex_liked = 2"
    by (simp_all add: ex_liked_def ex_article_def)
  from like_article_toggle [of ex_oid "''65a000000000000000000002''" 2 ex_blog ex_liked "''alice''", OF o f]
    like_article_toggle [of ex_oid "''65a000000000000000000002''" 2 ex_blog ex_liked "''carol''", OF o f]
    o f l
  show ?thesis by simp
qed

text \<open>
  Claim C10, as the claim words it. Two calls by a user who is in the list but not last
  move that user to the end: the likes list is not restored. And on a list that names a
  user twice, one call removes both entries while \<^verbatim>\<open>like_count\<close> drops by one, so the
  count no longer equals the length.
\<close>

theorem like_article_order_changes:
  "map likes (articles ex_blog) = [[''alice'', ''bob''], [], [''alice'', ''alice'']] \<and>
   map likes (articles (snd (like_article ex_oid ''65a000000000000000000002'' ''alice''
       (snd (like_article ex_oid ''65a000000000000000000002'' ''alice'' ex_blog)))))
     = [[''bob'', ''alice''], [], [''alice'', ''alice'']] \<and>
   map like_count (articles ex_blog) = [2, 0, 2] \<and>
   map likes (articles (snd (like_article ex_oid ''65a000000000000000000004'' ''alice'' ex_blog)))
     = [[''alice'', ''bob''], [], []] \<and>
   map like_count (articles (snd (like_article ex_oid ''65a000000000000000000004'' ''alice'' ex_blog)))
     = [2, 0, 1]"
  by (simp add: like_article_def ex_oid_def ex_blog_def ex_liked_def ex_article_def
      article_data_def)

section \<open>Comment tree\<close>

lemma map_loop_roots:
  "root_comments (fold (map_step cs) [0..<m] st) = root_comments st"
  by (induction m) (simp_all add: map_step_def)

lemma map_loop_replies:
  "replies st = replicate n [] \<Longrightarrow> replies (fold (map_step cs) [0..<m] st) = replicate n []"
proof (induction m)
  case 0
  then show ?case by simp
next
  case (Suc m)
  have "(replicate n ([] :: nat list))[m := []] = replicate n []"
    by (cases "m < n") (simp_all add: list_update_same_conv list_update_beyond)
  with Suc show ?case by (simp add: map_step_def)
qed

lemma map_loop_map:
  "comment_map st = Map.empty \<Longrightarrow>
   (comment_map (fold (map_step cs) [0..<m] st) k = Some j) =
   (j < m \<and> cid (cs ! j) = k \<and> (\<forall>i. j < i \<and> i < m \<longrightarrow> cid (cs ! i) \<noteq> k))"
proof (induction m)
  case 0
  then show ?case by simp
next
  case (Suc m)
  show ?case
  proof (cases "cid (cs ! m) = k")
    case True
    then show ?thesis
      by (auto simp: map_step_def less_Suc_eq)
  next
    case False
    with Suc show ?thesis
      by (auto simp: map_step_def less_Suc_eq)
  qed
qed

lemma link_loop:
  assumes M: "\<And>k j. M k = Some j \<Longrightarrow> j < n"
    and st: "comment_map st = M" "length (replies st) = n"
  shows "comment_map (fold (link_step cs) [0..<m] st) = M \<and>
         length (replies (fold (link_step cs) [0..<m] st)) = n \<and>
         root_comments (fold (link_step cs) [0..<m] st) =
           root_comments st @ filter (\<lambda>i. \<not> truthy (parent_id (cs ! i))) [0..<m] \<and>
         (\<forall>j<n. replies (fold (link_step cs) [0..<m] st) ! j =
           replies st ! j @
           filter (\<lambda>i. truthy (parent_id (cs ! i)) \<and> M (the (parent_id (cs ! i))) = Some j) [0..<m])"
proof (induction m)
  case 0
  from st show ?case by simp
next
  case (Suc m)
  let ?s = "fold (link_step cs) [0..<m] st"
  from Suc have a: "comment_map ?s = M" and b: "length (replies ?s) = n"
    and c: "root_comments ?s = root_comments st @ filter (\<lambda>i. \<not> truthy (parent_id (cs ! i))) [0..<m]"
    and d: "\<And>j. j < n \<Longrightarrow> replies ?s ! j = replies st ! j @
           filter (\<lambda>i. truthy (parent_id (cs ! i)) \<and> M (the (parent_id (cs ! i))) = Some j) [0..<m]"
    by simp_all
  have step: "fold (link_step cs) [0..<Suc m] st = link_step cs m ?s" by simp
  show ?case
  proof (cases "truthy (parent_id (cs ! m))")
    case False
    with a b c d show ?thesis unfolding step by (simp add: link_step_def)
  next
    case True
    show ?thesis
    proof (cases "M (the (parent_id (cs ! m)))")
      case None
      with True a b c d show ?thesis unfolding step by (simp add: link_step_def)
    next
      case (Some l)
      then have "l < n" by (rule M)
      with Some True a b c d show ?thesis unfolding step
        by (auto simp: link_step_def nth_list_update)
    qed
  qed
qed

text \<open>
  Claim C4: the returned roots are the records without a parent, in input order; the
  replies of a record are the records whose parent reference is its identifier, in input
  order (when several records carry one identifier, the last of them receives the
  replies); a record whose parent reference is the identifier of no record in the input
  is neither a root nor a reply of any record, and the method does not fail on it.
\<close>

theorem organize_comments_forest:
  "root_comments (organize_comments cs) =
      filter (\<lambda>i. \<not> truthy (parent_id (cs ! i))) [0..<length cs] \<and>
   length (replies (organize_comments cs)) = length cs \<and>
   (\<forall>j<length cs. replies (organize_comments cs) ! j =
      filter (\<lambda>i. truthy (parent_id (cs ! i)) \<and> the (parent_id (cs ! i)) = cid (cs ! j) \<and>
                  (\<forall>l. j < l \<and> l < length cs \<longrightarrow> cid (cs ! l) \<noteq> cid (cs ! j)))
        [0..<length cs]) \<and>
   (\<forall>i<length cs. truthy (parent_id (cs ! i)) \<and> the (parent_id (cs ! i)) \<notin> cid ` set cs \<longrightarrow>
      i \<notin> set (root_comments (organize_comments cs)) \<and>
      (\<forall>j<length cs. i \<notin> set (replies (organize_comments cs) ! j)))"
proof -
  let ?n = "length cs"
  let ?st0 = "\<lparr>comment_map = Map.empty, replies = replicate ?n [], root_comments = []\<rparr>"
  let ?st1 = "fold (map_step cs) [0..<?n] ?st0"
  let ?M = "comment_map ?st1"
  have org: "organize_comments cs = fold (link_step cs) [0..<?n] ?st1"
    by (simp add: organize_comments_def Let_def)
  have M: "(?M k = Some j) =
     (j < ?n \<and> cid (cs ! j) = k \<and> (\<forall>i. j < i \<and> i < ?n \<longrightarrow> cid (cs ! i) \<noteq> k))" for k j
    by (rule map_loop_map) simp
  have r1: "replies ?st1 = replicate ?n []" by (rule map_loop_replies) simp
  have t1: "root_comments ?st1 = []" by (simp add: map_loop_roots)
  have rng: "\<And>k j. ?M k = Some j \<Longrightarrow> j < ?n" using M by blast
  have len1: "length (replies ?st1) = ?n" by (simp add: r1)
  note L = link_loop [of ?M ?n ?st1 cs ?n, OF rng refl len1]
  have roots: "root_comments (organize_comments cs) =
      filter (\<lambda>i. \<not> truthy (parent_id (cs ! i))) [0..<?n]"
    using L by (simp add: org t1)
  have len: "length (replies (organize_comments cs)) = ?n"
    using L by (simp add: org)
  have rep: "replies (organize_comments cs) ! j =
      filter (\<lambda>i. truthy (parent_id (cs ! i)) \<and> the (parent_id (cs ! i)) = cid (cs ! j) \<and>
                  (\<forall>l. j < l \<and> l < ?n \<longrightarrow> cid (cs ! l) \<noteq> cid (cs ! j))) [0..<?n]"
    if j: "j < ?n" for j
  proof -
    from L j have "replies (organize_comments cs) ! j =
        filter (\<lambda>i. truthy (parent_id (cs ! i)) \<and> ?M (the (parent_id (cs ! i))) = Some j) [0..<?n]"
      by (simp add: org r1)
    also have "\<dots> = filter (\<lambda>i. truthy (parent_id (cs ! i)) \<and> the (parent_id (cs ! i)) = cid (cs ! j) \<and>
                  (\<forall>l. j < l \<and> l < ?n \<longrightarrow> cid (cs ! l) \<noteq> cid (cs ! j))) [0..<?n]"
      using j by (intro filter_cong refl) (auto simp: M)
    finally show ?thesis .
  qed
  have orphan: "i \<notin> set (root_comments (organize_comments cs)) \<and>
      (\<forall>j<?n. i \<notin> set (replies (organize_comments cs) ! j))"
    if "i < ?n" "truthy (parent_id (cs ! i))" "the (parent_id (cs ! i)) \<notin> cid ` set cs" for i
  proof -
    have "the (parent_id (cs ! i)) \<noteq> cid (cs ! j)" if "j < ?n" for j
      using that \<open>the (parent_id (cs ! i)) \<notin> cid ` set cs\<close> by (metis imageI nth_mem)
    with that show ?thesis by (simp add: roots rep)
  qed
  from roots len rep orphan show ?thesis by blast
qed

theorem organize_comments_forest_witness:
  "3 < length ex_comments \<and> truthy (parent_id (ex_comments ! 3)) \<and>
   the (parent_id (ex_comments ! 3)) \<notin> cid ` set ex_comments \<and>
   3 \<notin> set (root_comments (organize_comments ex_comments)) \<and>
   3 \<notin> set (replies (organize_comments ex_comments) ! 0) \<and>
   root_comments (organize_comments ex_comments) = [0] \<and>
   replies (organize_comments ex_comments) = [[1], [2], [], []] \<and>
   comment_forest 4 ex_comments = Some [CNode ex_root [CNode ex_reply [CNode ex_nested []]]] \<and>
   comment_forest 3 [ex_root, ex_reply, ex_nested]
     = Some [CNode ex_root [CNode ex_reply [CNode ex_nested []]]]"
proof -
  have len: "length ex_comments = 4" by (simp add: ex_comments_def)
  have orphan: "3 < length ex_comments \<and> truthy (parent_id (ex_comments ! 3)) \<and>
      the (parent_id (ex_comments ! 3)) \<notin> cid ` set ex_comments"
    by (simp add: ex_comments_def ex_root_def ex_reply_def ex_nested_def ex_orphan_def truthy_def)
  have run: "root_comments (organize_comments ex_comments) = [0] \<and>
      replies (organize_comments ex_comments) = [[1], [2], [], []]"
    by (simp add: organize_comments_def map_step_def link_step_def truthy_def upt_rec
        ex_comments_def ex_root_def ex_reply_def ex_nested_def ex_orphan_def)
  have forest: "comment_forest 4 ex_comments
      = Some [CNode ex_root [CNode ex_reply [CNode ex_nested []]]]"
    by (simp add: comment_forest_def run eval_nat_numeral) (simp add: ex_comments_def)
  have forest3: "comment_forest 3 [ex_root, ex_reply, ex_nested]
      = Some [CNode ex_root [CNode ex_reply [CNode ex_nested []]]]"
    by (simp add: comment_forest_def organize_comments_def map_step_def link_step_def
        truthy_def upt_rec eval_nat_numeral ex_root_def ex_reply_def ex_nested_def)
  note dropped = organize_comments_forest [of ex_comments, THEN conjunct2, THEN conjunct2,
      THEN conjunct2, THEN spec, of 3, THEN mp, THEN mp]
  from dropped orphan
  have "3 \<notin> set (root_comments (organize_comments ex_comments)) \<and>
      (\<forall>j<length ex_comments. 3 \<notin> set (replies (organize_comments ex_comments) ! j))"
    by blast
  then have "3 \<notin> set (root_comments (organize_comments ex_comments)) \<and>
      3 \<notin> set (replies (organize_comments ex_comments) ! 0)"
    by (simp add: len)
  with orphan run forest forest3 show ?thesis by simp
qed

section \<open>Task manager\<close>

text \<open>
  Claim C5: \<^verbatim>\<open>get_user\<close> on a string looks the user up by primary identifier when the
  string is a valid \<^verbatim>\<open>ObjectId\<close>; otherwise by email when it contains \<^verbatim>\<open>@\<close>; otherwise
  by username.
\<close>

theorem get_user_dispatch:
  "(oid_of s = Some i \<longrightarrow> get_user oid_of (IStr s) db = find (\<lambda>u. u_id u = i) (users db)) \<and>
   (oid_of s = None \<and> CHR ''@'' \<in> set s \<longrightarrow>
      get_user oid_of (IStr s) db = find (\<lambda>u. email u = s) (users db)) \<and>
   (oid_of s = None \<and> CHR ''@'' \<notin> set s \<longrightarrow>
      get_user oid_of (IStr s) db = find (\<lambda>u. username u = s) (users db))"
proof -
  have e: "user_matches (By_email (IStr s)) = (\<lambda>u :: 'a user. email u = s)"
    by (rule ext) simp
  have n: "user_matches (By_username (IStr s)) = (\<lambda>u :: 'a user. username u = s)"
    by (rule ext) simp
  have i: "user_matches (By_id i) = (\<lambda>u :: 'a user. u_id u = i)"
    by (rule ext) simp
  show ?thesis
    by (simp add: get_user_def get_user_query_def is_valid_def e n i)
qed

lemma ex_tasks1_eval:
  "ex_tasks1 = \<lparr>tasks = [ex_task], users = [ex_user\<lparr>task_count := 1\<rparr>]\<rparr>"
  by (simp add: ex_tasks1_def ex_tasks0_def create_task_def insert_one_def fmt04_def
      inc_task_count_def ex_oid_def ex_user_def ex_task_def numeral_3_eq_3)

theorem get_user_dispatch_witness:
  "ex_oid ''65a000000000000000000001'' = Some 1 \<and>
   ex_oid ''ahmed@example.com'' = None \<and> CHR ''@'' \<in> set ''ahmed@example.com'' \<and>
   ex_oid ''ahmed_dev'' = None \<and> CHR ''@'' \<notin> set ''ahmed_dev'' \<and>
   get_user ex_oid (IStr ''65a000000000000000000001'') ex_tasks0 = Some ex_user \<and>
   get_user ex_oid (IStr ''ahmed@example.com'') ex_tasks0 = Some ex_user \<and>
   get_user ex_oid (IStr ''ahmed_dev'') ex_tasks0 = Some ex_user \<and>
   get_user ex_oid (IStr ''ahmed_dev@'') ex_tasks0 = None"
proof -
  have o: "ex_oid ''65a000000000000000000001'' = Some 1"
    "ex_oid ''ahmed@example.com'' = None" "ex_oid ''ahmed_dev'' = None" "ex_oid ''ahmed_dev@'' = None"
    by (simp_all add: ex_oid_def)
  have u: "users ex_tasks0 = [ex_user]" "u_id ex_user = 1" "email ex_user = ''ahmed@example.com''"
    "username ex_user = ''ahmed_dev''"
    by (simp_all add: ex_tasks0_def ex_user_def)
  from get_user_dispatch [of ex_oid "''65a000000000000000000001''" 1 ex_tasks0]
    get_user_dispatch [of ex_oid "''ahmed@example.com''" 1 ex_tasks0]
    get_user_dispatch [of ex_oid "''ahmed_dev''" 1 ex_tasks0]
    get_user_dispatch [of ex_oid "''ahmed_dev@''" 1 ex_tasks0]
    o u
  show ?thesis by simp
qed





lemma get_task_none:
  "\<forall>d\<in>set (tasks db). \<not> task_query oid_of tid d \<Longrightarrow> get_task oid_of tid db = None"
  by (simp add: get_task_def find_None_iff)

text \<open>
  Claim C7: when no task matches the identifier, \<^verbatim>\<open>delete_task\<close> returns false and the
  database is unchanged: no task is removed and no counter is modified.
\<close>

theorem delete_task_missing:
  "\<forall>d\<in>set (tasks db). \<not> task_query oid_of task_identifier d \<Longrightarrow>
   delete_task oid_of task_identifier db = (Inr False, db)"
  by (simp add: delete_task_def get_task_none)

theorem delete_task_missing_witness:
  "tasks ex_tasks1 \<noteq> [] \<and> delete_task ex_oid (IStr ''TASK-0009'') ex_tasks1 = (Inr False, ex_tasks1)
   \<and> delete_task ex_oid (IStr ''65a000000000000000000003'') ex_tasks1 = (Inr False, ex_tasks1)"
proof -
  have a: "\<forall>d\<in>set (tasks ex_tasks1). \<not> task_query ex_oid (IStr ''TASK-0009'') d"
    by (simp add: ex_tasks1_eval task_query_def is_valid_def ex_oid_def match_eq_def
        ex_task_def task_data_def)
  have b: "\<forall>d\<in>set (tasks ex_tasks1). \<not> task_query ex_oid (IStr ''65a000000000000000000003'') d"
    by (simp add: ex_tasks1_eval task_query_def is_valid_def ex_oid_def match_eq_def
        ex_task_def task_data_def)
  have c: "tasks ex_tasks1 \<noteq> []" by (simp add: ex_tasks1_eval)
  from delete_task_missing [OF a] delete_task_missing [OF b] c show ?thesis by simp
qed




section \<open>Overdue tasks\<close>

lemma elems_scalar: "\<not> is_array v \<Longrightarrow> elems v = [v]"
  by (cases v) simp_all

lemma match_lt_scalar:
  "scalar_field k d \<Longrightarrow> match_lt k t d = (\<exists>s. map_of d k = Some (Date s) \<and> s < t)"
proof (cases "map_of d k")
  case None
  then show ?thesis by (simp add: match_lt_def)
next
  case (Some v)
  assume "scalar_field k d"
  with Some have "elems v = [v]" by (simp add: scalar_field_def elems_scalar)
  with Some show ?thesis by (cases v) (simp_all add: match_lt_def)
qed

lemma match_nin_scalar:
  "scalar_field k d \<Longrightarrow> match_nin k vs d = (\<forall>v. map_of d k = Some v \<longrightarrow> v \<notin> set vs)"
proof (cases "map_of d k")
  case None
  then show ?thesis by (simp add: match_nin_def)
next
  case (Some v)
  assume "scalar_field k d"
  with Some have "elems v = [v]" by (simp add: scalar_field_def elems_scalar)
  with Some show ?thesis by (simp add: match_nin_def)
qed

lemma match_lt_date: "map_of d k = Some (Date s) \<Longrightarrow> match_lt k t d = (s < t)"
  by (simp add: match_lt_def)

lemma match_nin_listed: "map_of d k = Some v \<Longrightarrow> v \<in> set vs \<Longrightarrow> \<not> match_nin k vs d"
  by (cases v) (auto simp: match_nin_def)

text \<open>
  Claim C3, as the claim words it, for every database state. \<^verbatim>\<open>update_task\<close> with the
  dictionary \<^verbatim>\<open>{"status": ["completed"]}\<close> stores an array as the status of a task due at
  50. At the clock reading 60 that task is due strictly before now and its status is
  neither the string completed nor the string cancelled, yet the query does not return
  it: \<^verbatim>\<open>$nin\<close> also tests the elements of an array.
\<close>

theorem overdue_tasks_array_status:
  "plain_update [(''status'', Arr [Str ''completed'']) :: string \<times> nat bson] \<and>
   length (tasks ex_tasks_array) = 1 \<and>
   map_of (hd (tasks ex_tasks_array)) ''due_date'' = Some (Date 50) \<and> (50 :: int) < 60 \<and>
   map_of (hd (tasks ex_tasks_array)) ''status'' = Some (Arr [Str ''completed'']) \<and>
   map_of (hd (tasks ex_tasks_array)) ''status'' \<noteq> Some (Str ''completed'') \<and>
   map_of (hd (tasks ex_tasks_array)) ''status'' \<noteq> Some (Str ''cancelled'') \<and>
   hd (tasks ex_tasks_array) \<notin> set (get_overdue_tasks 60 ex_tasks_array) \<and>
   get_overdue_tasks 60 ex_tasks_array = []"
  by (simp add: ex_tasks_array_def ex_tasks1_eval update_task_def task_query_def is_valid_def
      ex_oid_def match_eq_def ex_task_def task_data_def set_fields_def stamp_updates_def
      get_overdue_tasks_def match_lt_def match_nin_def plain_update_def plain_field_def)

text \<open>
  Claim C3, amended: on a collection whose \<^verbatim>\<open>due_date\<close> and \<^verbatim>\<open>status\<close> fields hold no
  arrays, the overdue query returns exactly the tasks whose due date is a date strictly
  before the clock reading and whose status is neither completed nor cancelled. On every
  collection, a task due at the clock reading itself is never returned, nor is a task
  whose status is completed or cancelled.
\<close>

theorem overdue_tasks_exact:
  "((\<forall>d\<in>set (tasks db). scalar_field ''due_date'' d \<and> scalar_field ''status'' d) \<longrightarrow>
      get_overdue_tasks now db =
        filter (\<lambda>d. (\<exists>t. map_of d ''due_date'' = Some (Date t) \<and> t < now) \<and>
                    map_of d ''status'' \<noteq> Some (Str ''completed'') \<and>
                    map_of d ''status'' \<noteq> Some (Str ''cancelled'')) (tasks db)) \<and>
   (\<forall>d. map_of d ''due_date'' = Some (Date now) \<longrightarrow> d \<notin> set (get_overdue_tasks now db)) \<and>
   (\<forall>d. map_of d ''status'' = Some (Str ''completed'') \<or>
        map_of d ''status'' = Some (Str ''cancelled'') \<longrightarrow> d \<notin> set (get_overdue_tasks now db))"
proof -
  have a: "get_overdue_tasks now db =
        filter (\<lambda>d. (\<exists>t. map_of d ''due_date'' = Some (Date t) \<and> t < now) \<and>
                    map_of d ''status'' \<noteq> Some (Str ''completed'') \<and>
                    map_of d ''status'' \<noteq> Some (Str ''cancelled'')) (tasks db)"
    if "\<forall>d\<in>set (tasks db). scalar_field ''due_date'' d \<and> scalar_field ''status'' d"
    unfolding get_overdue_tasks_def
    using that by (intro filter_cong refl) (auto simp: match_lt_scalar match_nin_scalar)
  have b: "d \<notin> set (get_overdue_tasks now db)" if "map_of d ''due_date'' = Some (Date now)" for d
    using match_lt_date [OF that, of now] by (simp add: get_overdue_tasks_def)
  have c: "d \<notin> set (get_overdue_tasks now db)"
    if "map_of d ''status'' = Some (Str ''completed'') \<or> map_of d ''status'' = Some (Str ''cancelled'')" for d
  proof -
    from that have "\<not> match_nin ''status'' [Str ''completed'', Str ''cancelled''] d"
      by (auto simp: match_nin_def)
    then show ?thesis by (simp add: get_overdue_tasks_def)
  qed
  from a b c show ?thesis by blast
qed

lemma ex_docs:
  "map_of ex_task ''due_date'' = Some (Date 50)" "map_of ex_task ''status'' = Some (Str ''todo'')"
  "map_of ex_task_due_now ''due_date'' = Some (Date 60)"
  "map_of ex_task_due_now ''status'' = Some (Str ''todo'')"
  "map_of ex_task_done ''due_date'' = Some (Date 20)"
  "map_of ex_task_done ''status'' = Some (Str ''completed'')"
  by (simp_all add: ex_task_def ex_task_due_now_def ex_task_done_def task_data_def set_fields_def)

theorem overdue_tasks_exact_witness:
  "list_all (\<lambda>d. scalar_field ''due_date'' d \<and> scalar_field ''status'' d) (tasks ex_tasks3) \<and>
   tasks ex_tasks3 = [ex_task, ex_task_due_now, ex_task_done] \<and>
   map_of ex_task_due_now ''due_date'' = Some (Date 60) \<and>
   map_of ex_task_done ''status'' = Some (Str ''completed'') \<and>
   map_of ex_task_done ''due_date'' = Some (Date 20) \<and>
   get_overdue_tasks 60 ex_tasks3 = [ex_task] \<and>
   ex_task_due_now \<notin> set (get_overdue_tasks 60 ex_tasks3) \<and>
   ex_task_done \<notin> set (get_overdue_tasks 60 ex_tasks3)"
proof -
  have t: "tasks ex_tasks3 = [ex_task, ex_task_due_now, ex_task_done]"
    by (simp add: ex_tasks3_def)
  have s: "\<forall>d\<in>set (tasks ex_tasks3). scalar_field ''due_date'' d \<and> scalar_field ''status'' d"
    by (simp add: t scalar_field_def ex_docs)
  note th = overdue_tasks_exact [of ex_tasks3 60]
  from th s have "get_overdue_tasks 60 ex_tasks3 =
        filter (\<lambda>d. (\<exists>t. map_of d ''due_date'' = Some (Date t) \<and> t < 60) \<and>
                    map_of d ''status'' \<noteq> Some (Str ''completed'') \<and>
                    map_of d ''status'' \<noteq> Some (Str ''cancelled'')) (tasks ex_tasks3)"
    by blast
  then have r: "get_overdue_tasks 60 ex_tasks3 = [ex_task]"
    by (simp add: t ex_docs)
  from th ex_docs(3) have b: "ex_task_due_now \<notin> set (get_overdue_tasks 60 ex_tasks3)"
    by blast
  from th ex_docs(6) have c: "ex_task_done \<notin> set (get_overdue_tasks 60 ex_tasks3)"
    by blast
  from s t r b c ex_docs show ?thesis by (simp add: list_all_iff)
qed

section \<open>Update timestamps\<close>













section \<open>Task counters\<close>

lemma find_update_other:
  assumes "\<And>x. q x \<Longrightarrow> \<not> p x \<and> \<not> p (f x)"
  shows "find p (snd (update_one q f xs)) = find p xs"
  by (induction xs) (auto simp: assms split: prod.splits)

lemma find_inc_same:
  "find (\<lambda>x. u_id x = u) (inc_task_count u k us) =
     map_option (\<lambda>x. x\<lparr>task_count := task_count x + k\<rparr>) (find (\<lambda>x. u_id x = u) us)"
  unfolding inc_task_count_def by (rule find_update_one) simp

lemma find_inc_other:
  "w \<noteq> u \<Longrightarrow> find (\<lambda>x. u_id x = w) (inc_task_count u k us) = find (\<lambda>x. u_id x = w) us"
  unfolding inc_task_count_def by (rule find_update_other) simp

lemma create_task_users:
  "object_id oid_of user_id = Some u \<Longrightarrow>
   users (snd (create_task oid_of new_id t1 t2 ttl dsc user_id pr due db)) =
     (if fst (create_task oid_of new_id t1 t2 ttl dsc user_id pr due db) = None then users db
      else inc_task_count u 1 (users db))"
  by (simp add: create_task_def Let_def split: sum.splits)

lemma create_task_Some:
  "fst (create_task oid_of new_id t1 t2 ttl dsc user_id pr due db) = Some i \<Longrightarrow>
   \<exists>u. object_id oid_of user_id = Some u"
  by (auto simp: create_task_def Let_def split: sum.splits option.splits)

lemma create_task_tasks:
  "fst (create_task oid_of new_id t1 t2 ttl dsc user_id pr due db) = Some i \<Longrightarrow>
   length (tasks (snd (create_task oid_of new_id t1 t2 ttl dsc user_id pr due db)))
     = length (tasks db) + 1"
  by (auto simp: create_task_def Let_def insert_one_def split: sum.splits option.splits if_splits)

lemma delete_one_found:
  "find q xs = Some x \<Longrightarrow> fst (delete_one q xs) = 1 \<and> length (snd (delete_one q xs)) + 1 = length xs"
  by (induction xs) (auto split: if_splits prod.splits)

lemma create_tasks_count:
  assumes "object_id oid_of user_id = Some u"
  shows "find (\<lambda>x. u_id x = u) (users db) = Some usr \<Longrightarrow>
     map_option task_count (find (\<lambda>x. u_id x = u) (users (snd (create_tasks oid_of user_id calls db))))
       = Some (task_count usr
               + int (length (filter (\<lambda>r. r \<noteq> None) (fst (create_tasks oid_of user_id calls db)))))"
proof (induction calls arbitrary: db usr)
  case Nil
  then show ?case by simp
next
  case (Cons c cs)
  let ?r = "create_task oid_of (call_new_id c) (call_t1 c) (call_t2 c) (call_title c)
             (call_description c) user_id (call_priority c) (call_due_date c) db"
  obtain r db1 where r: "?r = (r, db1)" by (cases ?r)
  obtain rs db2 where rs: "create_tasks oid_of user_id cs db1 = (rs, db2)"
    by (cases "create_tasks oid_of user_id cs db1")
  from create_task_users [OF assms, of "call_new_id c" "call_t1 c" "call_t2 c" "call_title c"
      "call_description c" "call_priority c" "call_due_date c" db] r
  have u1: "users db1 = (if r = None then users db else inc_task_count u 1 (users db))"
    by simp
  show ?case
  proof (cases "r = None")
    case True
    with u1 Cons.prems have "find (\<lambda>x. u_id x = u) (users db1) = Some usr" by simp
    from Cons.IH [OF this] True r rs show ?thesis by simp
  next
    case False
    with u1 Cons.prems have
      "find (\<lambda>x. u_id x = u) (users db1) = Some (usr\<lparr>task_count := task_count usr + 1\<rparr>)"
      by (simp add: find_inc_same)
    from Cons.IH [OF this] False r rs show ?thesis by auto
  qed
qed


lemma create_tasks_length:
  "length (fst (create_tasks oid_of user_id calls db)) = length calls"
proof (induction calls arbitrary: db)
  case Nil
  then show ?case by simp
next
  case (Cons c cs)
  obtain r db1 where r: "create_task oid_of (call_new_id c) (call_t1 c) (call_t2 c) (call_title c)
      (call_description c) user_id (call_priority c) (call_due_date c) db = (r, db1)"
    by (cases "create_task oid_of (call_new_id c) (call_t1 c) (call_t2 c) (call_title c)
      (call_description c) user_id (call_priority c) (call_due_date c) db")
  obtain rs db2 where rs: "create_tasks oid_of user_id cs db1 = (rs, db2)"
    by (cases "create_tasks oid_of user_id cs db1")
  from Cons [of db1] r rs show ?case by simp
qed

lemma delete_task_found:
  assumes "get_task oid_of tid db = Some t" "map_of t ''user_id'' = Some v"
    "stored_object_id oid_of v = Inr (Some u)"
  shows "delete_task oid_of tid db =
     (Inr True, db\<lparr>tasks := snd (delete_one (task_query oid_of tid) (tasks db)),
                     users := inc_task_count u (- 1) (users db)\<rparr>)"
proof -
  from assms(1) have "find (task_query oid_of tid) (tasks db) = Some t"
    by (simp add: get_task_def)
  from delete_one_found [OF this] assms show ?thesis
    by (cases "delete_one (task_query oid_of tid) (tasks db)") (simp add: delete_task_def)
qed

text \<open>
  Claim C1: a \<^verbatim>\<open>create_task\<close> call that succeeds adds one task and then raises the
  \<^verbatim>\<open>task_count\<close> of the owning user by exactly 1, leaving every other user as it was; a
  \<^verbatim>\<open>delete_task\<close> call on an existing task removes one task and then lowers the
  \<^verbatim>\<open>task_count\<close> of its owner by exactly 1. Hence, for a user whose \<^verbatim>\<open>task_count\<close> is 0,
  after N successful creations the counter is N.
\<close>

theorem task_count_bookkeeping:
  "(fst (create_task oid_of new_id t1 t2 ttl dsc user_id pr due db) \<noteq> None \<and>
    object_id oid_of user_id = Some u \<and> find (\<lambda>x. u_id x = u) (users db) = Some usr \<longrightarrow>
      find (\<lambda>x. u_id x = u) (users (snd (create_task oid_of new_id t1 t2 ttl dsc user_id pr due db)))
        = Some (usr\<lparr>task_count := task_count usr + 1\<rparr>) \<and>
      (\<forall>w. w \<noteq> u \<longrightarrow>
         find (\<lambda>x. u_id x = w) (users (snd (create_task oid_of new_id t1 t2 ttl dsc user_id pr due db)))
           = find (\<lambda>x. u_id x = w) (users db)) \<and>
      length (tasks (snd (create_task oid_of new_id t1 t2 ttl dsc user_id pr due db)))
        = length (tasks db) + 1) \<and>
   (get_task oid_of tid db = Some t \<and> map_of t ''user_id'' = Some v \<and>
    stored_object_id oid_of v = Inr (Some u') \<and> find (\<lambda>x. u_id x = u') (users db) = Some usr' \<longrightarrow>
      fst (delete_task oid_of tid db) = Inr True \<and>
      find (\<lambda>x. u_id x = u') (users (snd (delete_task oid_of tid db)))
        = Some (usr'\<lparr>task_count := task_count usr' - 1\<rparr>) \<and>
      (\<forall>w. w \<noteq> u' \<longrightarrow>
         find (\<lambda>x. u_id x = w) (users (snd (delete_task oid_of tid db)))
           = find (\<lambda>x. u_id x = w) (users db)) \<and>
      length (tasks (snd (delete_task oid_of tid db))) + 1 = length (tasks db)) \<and>
   (object_id oid_of user_id = Some u \<and> find (\<lambda>x. u_id x = u) (users db) = Some usr \<and>
    task_count usr = 0 \<and> list_all (\<lambda>r. r \<noteq> None) (fst (create_tasks oid_of user_id calls db)) \<longrightarrow>
      map_option task_count
        (find (\<lambda>x. u_id x = u) (users (snd (create_tasks oid_of user_id calls db))))
        = Some (int (length calls)))"
proof -
  let ?c = "create_task oid_of new_id t1 t2 ttl dsc user_id pr due db"
  have a: "find (\<lambda>x. u_id x = u) (users (snd ?c)) = Some (usr\<lparr>task_count := task_count usr + 1\<rparr>) \<and>
      (\<forall>w. w \<noteq> u \<longrightarrow> find (\<lambda>x. u_id x = w) (users (snd ?c)) = find (\<lambda>x. u_id x = w) (users db)) \<and>
      length (tasks (snd ?c)) = length (tasks db) + 1"
    if "fst ?c \<noteq> None" "object_id oid_of user_id = Some u"
      "find (\<lambda>x. u_id x = u) (users db) = Some usr"
  proof -
    from that(1) obtain i where i: "fst ?c = Some i" by auto
    from create_task_users [OF that(2), of new_id t1 t2 ttl dsc pr due db] i
    have "users (snd ?c) = inc_task_count u 1 (users db)" by simp
    with that(3) create_task_tasks [OF i] show ?thesis
      by (simp add: find_inc_same find_inc_other)
  qed
  have b: "fst (delete_task oid_of tid db) = Inr True \<and>
      find (\<lambda>x. u_id x = u') (users (snd (delete_task oid_of tid db)))
        = Some (usr'\<lparr>task_count := task_count usr' - 1\<rparr>) \<and>
      (\<forall>w. w \<noteq> u' \<longrightarrow>
         find (\<lambda>x. u_id x = w) (users (snd (delete_task oid_of tid db)))
           = find (\<lambda>x. u_id x = w) (users db)) \<and>
      length (tasks (snd (delete_task oid_of tid db))) + 1 = length (tasks db)"
    if "get_task oid_of tid db = Some t" "map_of t ''user_id'' = Some v"
      "stored_object_id oid_of v = Inr (Some u')" "find (\<lambda>x. u_id x = u') (users db) = Some usr'"
  proof -
    from that(1) have f: "find (task_query oid_of tid) (tasks db) = Some t"
      by (simp add: get_task_def)
    from delete_task_found [OF that(1,2,3)] delete_one_found [OF f] that(4)
    show ?thesis by (simp add: find_inc_same find_inc_other)
  qed
  have c: "map_option task_count
        (find (\<lambda>x. u_id x = u) (users (snd (create_tasks oid_of user_id calls db))))
        = Some (int (length calls))"
    if "object_id oid_of user_id = Some u" "find (\<lambda>x. u_id x = u) (users db) = Some usr"
      "task_count usr = 0" "list_all (\<lambda>r. r \<noteq> None) (fst (create_tasks oid_of user_id calls db))"
  proof -
    from that(4) have "filter (\<lambda>r. r \<noteq> None) (fst (create_tasks oid_of user_id calls db))
        = fst (create_tasks oid_of user_id calls db)"
      by (simp add: list_all_iff)
    with create_tasks_count [OF that(1,2), of calls] that(3) show ?thesis
      by (simp add: create_tasks_length)
  qed
  from a b c show ?thesis by blast
qed


theorem task_count_bookkeeping_witness:
  "object_id ex_oid (IStr ''65a000000000000000000001'') = Some 1 \<and>
   find (\<lambda>x. u_id x = 1) (users ex_tasks0) = Some ex_user \<and> task_count ex_user = 0 \<and>
   fst (create_tasks ex_oid (IStr ''65a000000000000000000001'') ex_calls ex_tasks0)
     = [Some 2, Some 3] \<and>
   map_option task_count (find (\<lambda>x. u_id x = 1)
       (users (snd (create_tasks ex_oid (IStr ''65a000000000000000000001'') ex_calls ex_tasks0))))
     = Some 2 \<and>
   fst (create_task ex_oid 2 10 10 ''Develop UI'' ''Create UI''
         (IStr ''65a000000000000000000001'') ''high'' (Some 50) ex_tasks0) = Some 2 \<and>
   find (\<lambda>x. u_id x = 1) (users ex_tasks1) = Some (ex_user\<lparr>task_count := 1\<rparr>) \<and>
   get_task ex_oid (IStr ''TASK-0001'') ex_tasks1 = Some ex_task \<and>
   fst (delete_task ex_oid (IStr ''TASK-0001'') ex_tasks1) = Inr True \<and>
   find (\<lambda>x. u_id x = 1) (users (snd (delete_task ex_oid (IStr ''TASK-0001'') ex_tasks1)))
     = Some (ex_user\<lparr>task_count := 0\<rparr>) \<and>
   tasks (snd (delete_task ex_oid (IStr ''TASK-0001'') ex_tasks1)) = []"
proof -
  let ?uid = "IStr ''65a000000000000000000001'' :: nat ident_arg"
  have o: "object_id ex_oid ?uid = Some 1" by (simp add: ex_oid_def)
  have f0: "find (\<lambda>x. u_id x = 1) (users ex_tasks0) = Some ex_user"
    by (simp add: ex_tasks0_def ex_user_def)
  have z: "task_count ex_user = 0" by (simp add: ex_user_def)
  have c1r: "fst (create_task ex_oid 2 10 10 ''Develop UI'' ''Create UI'' ?uid ''high'' (Some 50)
      ex_tasks0) = Some 2"
    by (simp add: create_task_def insert_one_def ex_tasks0_def ex_oid_def)
  have rs: "fst (create_tasks ex_oid ?uid ex_calls ex_tasks0) = [Some 2, Some 3]"
    by (simp add: ex_calls_def create_task_def insert_one_def ex_tasks0_def ex_oid_def
        fmt04_def match_eq_def task_data_def numeral_3_eq_3 split: prod.splits)
  have g: "get_task ex_oid (IStr ''TASK-0001'') ex_tasks1 = Some ex_task"
    by (simp add: get_task_def ex_tasks1_eval task_query_def is_valid_def ex_oid_def match_eq_def
        ex_task_def task_data_def)
  have v: "map_of ex_task ''user_id'' = Some (Str ''65a000000000000000000001'')"
    by (simp add: ex_task_def task_data_def)
  have s: "stored_object_id ex_oid (Str ''65a000000000000000000001'' :: nat bson) = Inr (Some 1)"
    by (simp add: ex_oid_def)
  have f1: "find (\<lambda>x. u_id x = 1) (users ex_tasks1) = Some (ex_user\<lparr>task_count := 1\<rparr>)"
    by (simp add: ex_tasks1_eval ex_user_def)
  note th = task_count_bookkeeping [where oid_of = ex_oid and new_id = 2 and ?t1.0 = 10 and ?t2.0 = 10
      and ttl = "''Develop UI''" and dsc = "''Create UI''" and user_id = ?uid
      and pr = "''high''" and due = "Some 50" and db = ex_tasks0 and u = 1 and usr = ex_user
      and calls = ex_calls]
  note th2 = task_count_bookkeeping [where oid_of = ex_oid and db = ex_tasks1 and tid = "IStr ''TASK-0001''"
      and t = ex_task and v = "Str ''65a000000000000000000001''" and u' = 1
      and usr' = "ex_user\<lparr>task_count := 1\<rparr>"]
  from th o f0 z rs have n: "map_option task_count (find (\<lambda>x. u_id x = 1)
       (users (snd (create_tasks ex_oid ?uid ex_calls ex_tasks0)))) = Some 2"
    by (simp add: ex_calls_def)
  from th c1r o f0 have created: "find (\<lambda>x. u_id x = 1) (users ex_tasks1)
      = Some (ex_user\<lparr>task_count := task_count ex_user + 1\<rparr>)"
    unfolding ex_tasks1_def by simp
  from th2 g v s f1 have d: "fst (delete_task ex_oid (IStr ''TASK-0001'') ex_tasks1) = Inr True"
    "find (\<lambda>x. u_id x = 1) (users (snd (delete_task ex_oid (IStr ''TASK-0001'') ex_tasks1)))
       = Some (ex_user\<lparr>task_count := 0\<rparr>)"
    "length (tasks (snd (delete_task ex_oid (IStr ''TASK-0001'') ex_tasks1))) + 1
       = length (tasks ex_tasks1)"
    by simp_all
  from d(3) have e: "tasks (snd (delete_task ex_oid (IStr ''TASK-0001'') ex_tasks1)) = []"
    by (simp add: ex_tasks1_eval)
  from o f0 z rs n c1r f1 g d e show ?thesis by simp
qed

end
